theory Spec2Isabelle
  imports Main
begin

section \<open>The Materializer script \<^verbatim>\<open>_write_files.py\<close>\<close>

text \<open>
  The script reads a manifest \<^verbatim>\<open>_files_data.json\<close> beside itself, decodes every value
  from base64 and then from UTF-8, writes the text under the entry's name, prints a line
  with the number of newline characters, and finally removes the manifest and itself.

  The script is a sequence of calls into Python's standard library and the operating
  system. Those are modelled here as far as the script can observe them:
  \<^item> a Python \<^verbatim>\<open>str\<close> is the list of its code points, \<^verbatim>\<open>bytes\<close> a list of byte values;
  \<^item> \<^verbatim>\<open>os.path\<close> is \<^verbatim>\<open>posixpath\<close>; the file system is a POSIX one without symbolic links,
    permissions or quotas, and names are compared as code point sequences;
  \<^item> text files are read and written in UTF-8 (the platform encoding the specification
    names), with POSIX newline handling;
  \<^item> \<^verbatim>\<open>json.loads\<close> is a parameter of the model: the script only needs its result;
  \<^item> every name is one the system accepts (short enough, encodable for the file
    system) and standard output accepts every line: \<^verbatim>\<open>open\<close> and \<^verbatim>\<open>print\<close> have no error
    for these.
\<close>

subsection \<open>Strings, bytes and exceptions\<close>

type_synonym pystr = "nat list"
type_synonym bytes = "nat list"

definition lit :: "string \<Rightarrow> pystr" where
  "lit s = map of_char s"

text \<open>The exception classes the script's calls can raise.\<close>

datatype error =
    FileNotFoundError
  | NotADirectoryError
  | IsADirectoryError
  | ValueError
  | UnicodeDecodeError
  | UnicodeEncodeError
  | JSONDecodeError
  | AttributeError
  | TypeError
  | BinasciiError

text \<open>\<^verbatim>\<open>chr(10)\<close>, and the path separator of \<^verbatim>\<open>posixpath\<close>.\<close>

definition chr10 :: nat where
  "chr10 = 10"

definition sep :: nat where
  "sep = 47"

text \<open>\<^verbatim>\<open>str.count\<close> with a one-character argument.\<close>

definition count :: "pystr \<Rightarrow> nat \<Rightarrow> nat" where
  "count s c = length (filter (\<lambda>x. x = c) s)"

text \<open>\<^verbatim>\<open>str(n)\<close> for a non-negative integer: its decimal digits.\<close>

fun str :: "nat \<Rightarrow> pystr" where
  "str n = (if n < 10 then [48 + n] else str (n div 10) @ [48 + n mod 10])"

declare str.simps [simp del]

subsection \<open>\<^verbatim>\<open>posixpath.dirname\<close> and \<^verbatim>\<open>posixpath.join\<close>\<close>

text \<open>
  \<^verbatim>\<open>dirname(p)\<close>: \<^verbatim>\<open>i = p.rfind('/') + 1; head = p[:i]\<close>; when \<^verbatim>\<open>head\<close> is not empty and not
  all slashes, \<^verbatim>\<open>head = head.rstrip('/')\<close>.
\<close>

definition rstrip_sep :: "pystr \<Rightarrow> pystr" where
  "rstrip_sep p = rev (dropWhile (\<lambda>c. c = sep) (rev p))"

definition dirname :: "pystr \<Rightarrow> pystr" where
  "dirname p =
     (let head = rev (dropWhile (\<lambda>c. c \<noteq> sep) (rev p))
      in if head \<noteq> [] \<and> \<not> (\<forall>c \<in> set head. c = sep) then rstrip_sep head else head)"

text \<open>
  \<^verbatim>\<open>join(a, b)\<close>: \<^verbatim>\<open>b\<close> alone when \<^verbatim>\<open>b\<close> starts with a slash or \<^verbatim>\<open>a\<close> is empty; \<^verbatim>\<open>a + b\<close> when
  \<^verbatim>\<open>a\<close> ends with a slash; \<^verbatim>\<open>a + '/' + b\<close> otherwise.
\<close>

definition join :: "pystr \<Rightarrow> pystr \<Rightarrow> pystr" where
  "join a b =
     (if (b \<noteq> [] \<and> hd b = sep) \<or> a = [] then b
      else if last a = sep then a @ b
      else a @ sep # b)"

subsection \<open>\<^verbatim>\<open>base64.b64decode\<close>\<close>

text \<open>
  The base64 alphabet as arithmetic on code points: \<^verbatim>\<open>A-Z\<close> are 0 to 25, \<^verbatim>\<open>a-z\<close> 26 to 51,
  \<^verbatim>\<open>0-9\<close> 52 to 61, \<^verbatim>\<open>+\<close> is 62 and \<^verbatim>\<open>/\<close> is 63. \<open>table_a2b\<close> is the decoder's table,
  \<open>table_b2a\<close> the encoder's.
\<close>

definition table_a2b :: "nat \<Rightarrow> nat option" where
  "table_a2b c =
     (if 65 \<le> c \<and> c \<le> 90 then Some (c - 65)
      else if 97 \<le> c \<and> c \<le> 122 then Some (c - 71)
      else if 48 \<le> c \<and> c \<le> 57 then Some (c + 4)
      else if c = 43 then Some 62
      else if c = 47 then Some 63
      else None)"

definition table_b2a :: "nat \<Rightarrow> nat" where
  "table_b2a i =
     (if i < 26 then 65 + i
      else if i < 52 then 71 + i
      else if i < 62 then i - 4
      else if i = 62 then 43
      else 47)"

definition BASE64_PAD :: nat where
  "BASE64_PAD = 61"

text \<open>Prepending one more output byte to the result of the rest of the decoding.\<close>

fun emit :: "nat \<Rightarrow> error + nat list \<Rightarrow> error + nat list" where
  "emit b (Inl e) = Inl e"
| "emit b (Inr bs) = Inr (b # bs)"

text \<open>
  \<^verbatim>\<open>binascii.a2b_base64\<close> in its default, non-strict mode, as a loop over the input with
  the decoder's three variables: the position in the current group of four
  (\<open>quad_pos\<close>), the bits left over from the previous character (\<open>leftchar\<close>) and the
  number of padding characters seen since the last data character (\<open>pads\<close>).
  A padding character that completes a group ends the decoding, whatever follows;
  a character outside the alphabet is skipped; input that ends inside a group raises
  \<^verbatim>\<open>binascii.Error\<close>.
\<close>

fun a2b_base64 :: "nat \<Rightarrow> nat \<Rightarrow> nat \<Rightarrow> nat list \<Rightarrow> error + bytes" where
  "a2b_base64 quad_pos leftchar pads [] =
     (if quad_pos \<noteq> 0 then Inl BinasciiError else Inr [])"
| "a2b_base64 quad_pos leftchar pads (this_ch # rest) =
     (if this_ch = BASE64_PAD then
        (if quad_pos \<ge> 2 \<and> quad_pos + (pads + 1) \<ge> 4 then Inr []
         else a2b_base64 quad_pos leftchar (if quad_pos \<ge> 2 then pads + 1 else pads) rest)
      else
        (case table_a2b this_ch of
           None \<Rightarrow> a2b_base64 quad_pos leftchar pads rest
         | Some v \<Rightarrow>
             (if quad_pos = 0 then a2b_base64 1 v 0 rest
              else if quad_pos = 1 then
                emit (leftchar * 4 + v div 16) (a2b_base64 2 (v mod 16) 0 rest)
              else if quad_pos = 2 then
                emit (leftchar * 16 + v div 4) (a2b_base64 3 (v mod 4) 0 rest)
              else
                emit (leftchar * 64 + v) (a2b_base64 0 0 0 rest))))"

text \<open>
  \<^verbatim>\<open>b64decode(s)\<close> for a \<^verbatim>\<open>str\<close>: \<^verbatim>\<open>s.encode('ascii')\<close>, which raises \<^verbatim>\<open>ValueError\<close> on a
  character beyond ASCII, then \<^verbatim>\<open>a2b_base64\<close>.
\<close>

definition b64decode :: "pystr \<Rightarrow> error + bytes" where
  "b64decode s =
     (if \<exists>c \<in> set s. c \<ge> 128 then Inl ValueError else a2b_base64 0 0 0 s)"

text \<open>
  The encoding that \<open>b64decode\<close> is to invert (RFC 4648, as \<^verbatim>\<open>base64.b64encode\<close>
  produces it): three bytes become four characters, and a last group of one or two
  bytes is padded with \<^verbatim>\<open>=\<close>.
\<close>

fun b64encode :: "bytes \<Rightarrow> pystr" where
  "b64encode [] = []"
| "b64encode [a] =
     [table_b2a (a div 4), table_b2a (a mod 4 * 16), BASE64_PAD, BASE64_PAD]"
| "b64encode [a, b] =
     [table_b2a (a div 4), table_b2a (a mod 4 * 16 + b div 16),
      table_b2a (b mod 16 * 4), BASE64_PAD]"
| "b64encode (a # b # c # rest) =
     table_b2a (a div 4) # table_b2a (a mod 4 * 16 + b div 16) #
     table_b2a (b mod 16 * 4 + c div 64) # table_b2a (c mod 64) # b64encode rest"

subsection \<open>The UTF-8 codec\<close>

text \<open>
  \<^verbatim>\<open>bytes.decode('utf-8')\<close> is strict: it raises on a stray or missing continuation
  byte, on an overlong form, on a surrogate and on a code point above U+10FFFF.
\<close>

definition is_cont :: "nat \<Rightarrow> bool" where
  "is_cont b \<longleftrightarrow> 128 \<le> b \<and> b < 192"

definition is_surrogate :: "nat \<Rightarrow> bool" where
  "is_surrogate c \<longleftrightarrow> 55296 \<le> c \<and> c < 57344"

fun utf8_decode :: "bytes \<Rightarrow> error + pystr" where
  "utf8_decode [] = Inr []"
| "utf8_decode (b0 # bs) =
     (if b0 < 128 then emit b0 (utf8_decode bs)
      else if 192 \<le> b0 \<and> b0 < 224 then
        (case bs of
           b1 # r \<Rightarrow>
             (let c = (b0 - 192) * 64 + (b1 - 128)
              in if is_cont b1 \<and> 128 \<le> c then emit c (utf8_decode r)
                 else Inl UnicodeDecodeError)
         | _ \<Rightarrow> Inl UnicodeDecodeError)
      else if 224 \<le> b0 \<and> b0 < 240 then
        (case bs of
           b1 # b2 # r \<Rightarrow>
             (let c = (b0 - 224) * 4096 + (b1 - 128) * 64 + (b2 - 128)
              in if is_cont b1 \<and> is_cont b2 \<and> 2048 \<le> c \<and> \<not> is_surrogate c
                 then emit c (utf8_decode r)
                 else Inl UnicodeDecodeError)
         | _ \<Rightarrow> Inl UnicodeDecodeError)
      else if 240 \<le> b0 \<and> b0 < 248 then
        (case bs of
           b1 # b2 # b3 # r \<Rightarrow>
             (let c = (b0 - 240) * 262144 + (b1 - 128) * 4096 + (b2 - 128) * 64 + (b3 - 128)
              in if is_cont b1 \<and> is_cont b2 \<and> is_cont b3 \<and> 65536 \<le> c \<and> c < 1114112
                 then emit c (utf8_decode r)
                 else Inl UnicodeDecodeError)
         | _ \<Rightarrow> Inl UnicodeDecodeError)
      else Inl UnicodeDecodeError)"

text \<open>
  \<^verbatim>\<open>str.encode('utf-8')\<close>, which raises on a surrogate. A Python string holds no code
  point above U+10FFFF; the model raises there too.
\<close>

fun utf8_encode :: "pystr \<Rightarrow> error + bytes" where
  "utf8_encode [] = Inr []"
| "utf8_encode (c # cs) =
     (if c < 128 then emit c (utf8_encode cs)
      else if c < 2048 then
        emit (192 + c div 64) (emit (128 + c mod 64) (utf8_encode cs))
      else if c < 65536 then
        (if is_surrogate c then Inl UnicodeEncodeError
         else emit (224 + c div 4096) (emit (128 + c div 64 mod 64)
                (emit (128 + c mod 64) (utf8_encode cs))))
      else if c < 1114112 then
        emit (240 + c div 262144) (emit (128 + c div 4096 mod 64)
          (emit (128 + c div 64 mod 64) (emit (128 + c mod 64) (utf8_encode cs))))
      else Inl UnicodeEncodeError)"

subsection \<open>JSON values\<close>

text \<open>
  What \<^verbatim>\<open>json.loads\<close> returns. An object is a \<^verbatim>\<open>dict\<close>, which keeps its entries in
  insertion order. Numbers carry no value here: the script raises on every number alike.
\<close>

datatype json =
    JNull
  | JBool bool
  | JNumber
  | JString pystr
  | JArray "json list"
  | JObject "(pystr \<times> json) list"

text \<open>\<^verbatim>\<open>files_b64.items()\<close>: only a \<^verbatim>\<open>dict\<close> has the method.\<close>

fun items :: "json \<Rightarrow> error + (pystr \<times> json) list" where
  "items (JObject kvs) = Inr kvs"
| "items _ = Inl AttributeError"

text \<open>
  \<^verbatim>\<open>base64.b64decode(b64content).decode('utf-8')\<close> on a value of the manifest:
  \<^verbatim>\<open>b64decode\<close> raises \<^verbatim>\<open>TypeError\<close> on anything that is neither a string nor bytes-like.
\<close>

fun decode_content :: "json \<Rightarrow> error + pystr" where
  "decode_content (JString b64content) =
     (case b64decode b64content of
        Inl e \<Rightarrow> Inl e
      | Inr raw \<Rightarrow> utf8_decode raw)"
| "decode_content _ = Inl TypeError"

subsection \<open>The file system\<close>

text \<open>
  A node is addressed by the list of names leading to it from the root directory;
  the root itself is the empty list and always a directory.
\<close>

type_synonym path = "pystr list"

datatype node = File bytes | Dir

type_synonym filesystem = "path \<rightharpoonup> node"

text \<open>\<^verbatim>\<open>p.split('/')\<close>: the components of a path string.\<close>

fun split_sep :: "pystr \<Rightarrow> pystr list" where
  "split_sep [] = [[]]"
| "split_sep (c # cs) =
     (if c = sep then [] # split_sep cs
      else (case split_sep cs of
              [] \<Rightarrow> [[c]]
            | x # xs \<Rightarrow> (c # x) # xs))"

definition dot :: pystr where
  "dot = lit ''.''"

definition dotdot :: pystr where
  "dotdot = lit ''..''"

text \<open>
  Walking down directory components from the directory \<open>cur\<close>. Empty components and
  \<^verbatim>\<open>.\<close> stay, \<^verbatim>\<open>..\<close> goes to the parent (the root is its own parent), a name must be an
  existing directory.
\<close>

fun walk :: "filesystem \<Rightarrow> path \<Rightarrow> pystr list \<Rightarrow> error + path" where
  "walk fs cur [] = Inr cur"
| "walk fs cur (c # cs) =
     (if c = [] \<or> c = dot then walk fs cur cs
      else if c = dotdot then walk fs (butlast cur) cs
      else (case fs (cur @ [c]) of
              None \<Rightarrow> Inl FileNotFoundError
            | Some (File _) \<Rightarrow> Inl NotADirectoryError
            | Some Dir \<Rightarrow> walk fs (cur @ [c]) cs))"

text \<open>
  Resolving a path string to the node it names and what is there. Every path the
  script builds is absolute, since it starts with the result of \<^verbatim>\<open>os.path.abspath\<close>,
  so resolution starts at the root. A string with a NUL character is refused by
  Python before the system call; the empty path names nothing.
\<close>

definition resolve :: "filesystem \<Rightarrow> pystr \<Rightarrow> error + (path \<times> node option)" where
  "resolve fs p =
     (if 0 \<in> set p then Inl ValueError
      else if p = [] then Inl FileNotFoundError
      else (case walk fs [] (butlast (split_sep p)) of
              Inl e \<Rightarrow> Inl e
            | Inr d \<Rightarrow>
                (let n = last (split_sep p)
                 in if n = [] \<or> n = dot then Inr (d, Some Dir)
                    else if n = dotdot then Inr (butlast d, Some Dir)
                    else Inr (d @ [n], fs (d @ [n])))))"

subsection \<open>The state of a run and its effects\<close>

text \<open>
  A run changes the file system and performs a sequence of effects, recorded in order:
  opening a file for writing (which creates or truncates it), writing and closing it,
  removing a file, printing a line.
\<close>

datatype effect =
    Opened path
  | Wrote path bytes
  | Removed path
  | Printed pystr

record state =
  fs :: filesystem
  trace :: "effect list"

text \<open>A run either finishes or stops at an exception, in both cases in some state.\<close>

datatype outcome = Finished state | Raised error state

fun and_then :: "outcome \<Rightarrow> (state \<Rightarrow> outcome) \<Rightarrow> outcome" where
  "and_then (Finished s) f = f s"
| "and_then (Raised e s) f = Raised e s"

text \<open>\<^verbatim>\<open>print(line)\<close>.\<close>

definition print :: "pystr \<Rightarrow> state \<Rightarrow> outcome" where
  "print line s = Finished (s\<lparr>trace := trace s @ [Printed line]\<rparr>)"

text \<open>
  Opening for reading and removing both need an existing regular file at the path:
  a missing file raises \<^verbatim>\<open>FileNotFoundError\<close>, a directory \<^verbatim>\<open>IsADirectoryError\<close>.
\<close>

definition lookup_file :: "filesystem \<Rightarrow> pystr \<Rightarrow> error + (path \<times> bytes)" where
  "lookup_file f p =
     (case resolve f p of
        Inl e \<Rightarrow> Inl e
      | Inr (t, None) \<Rightarrow> Inl FileNotFoundError
      | Inr (t, Some Dir) \<Rightarrow> Inl IsADirectoryError
      | Inr (t, Some (File raw)) \<Rightarrow> Inr (t, raw))"

text \<open>
  \<^verbatim>\<open>open(p).read()\<close>: the file's bytes decoded as UTF-8, with \<^verbatim>\<open>\r\n\<close> and \<^verbatim>\<open>\r\<close> read as
  \<^verbatim>\<open>\n\<close> (universal newlines).
\<close>

fun universal_newlines :: "bool \<Rightarrow> pystr \<Rightarrow> pystr" where
  "universal_newlines after_cr [] = []"
| "universal_newlines after_cr (c # cs) =
     (if c = 13 then 10 # universal_newlines True cs
      else if c = 10 \<and> after_cr then universal_newlines False cs
      else c # universal_newlines False cs)"

definition read_text :: "filesystem \<Rightarrow> pystr \<Rightarrow> error + pystr" where
  "read_text f p =
     (case lookup_file f p of
        Inl e \<Rightarrow> Inl e
      | Inr (t, raw) \<Rightarrow>
          (case utf8_decode raw of
             Inl e \<Rightarrow> Inl e
           | Inr txt \<Rightarrow> Inr (universal_newlines False txt)))"

text \<open>
  \<^verbatim>\<open>open(p, 'w')\<close> creates the file or empties an existing one. It fails on a directory
  and below a missing directory: no directory is ever created. \<open>open_w\<close> gives the
  node the file is opened at.
\<close>

definition open_w :: "filesystem \<Rightarrow> pystr \<Rightarrow> error + path" where
  "open_w f p =
     (case resolve f p of
        Inl e \<Rightarrow> Inl e
      | Inr (t, Some Dir) \<Rightarrow> Inl IsADirectoryError
      | Inr (t, _) \<Rightarrow> Inr t)"

text \<open>
  \<^verbatim>\<open>with open(p, 'w') as f: f.write(content)\<close>. The text is encoded on \<^verbatim>\<open>write\<close> and
  reaches the file on leaving the block; when encoding raises, the file stays as
  \<^verbatim>\<open>open\<close> left it, empty.
\<close>

definition write_text :: "pystr \<Rightarrow> pystr \<Rightarrow> state \<Rightarrow> outcome" where
  "write_text p content s =
     (case open_w (fs s) p of
        Inl e \<Rightarrow> Raised e s
      | Inr t \<Rightarrow>
          (case utf8_encode content of
             Inl e \<Rightarrow> Raised e \<lparr>fs = (fs s)(t \<mapsto> File []), trace = trace s @ [Opened t]\<rparr>
           | Inr raw \<Rightarrow>
               Finished \<lparr>fs = (fs s)(t \<mapsto> File raw),
                         trace = trace s @ [Opened t, Wrote t raw]\<rparr>))"

text \<open>\<^verbatim>\<open>os.remove(p)\<close>: unlinks a regular file.\<close>

definition os_remove :: "pystr \<Rightarrow> state \<Rightarrow> outcome" where
  "os_remove p s =
     (case lookup_file (fs s) p of
        Inl e \<Rightarrow> Raised e s
      | Inr (t, raw) \<Rightarrow>
          Finished \<lparr>fs = (fs s)(t := None), trace = trace s @ [Removed t]\<rparr>)"

subsection \<open>The script\<close>

definition manifest_name :: pystr where
  "manifest_name = lit ''_files_data.json''"

definition script_name :: pystr where
  "script_name = lit ''_write_files.py''"

text \<open>The body of the loop, for one entry \<^verbatim>\<open>fname, b64content\<close> of the manifest.\<close>

definition written_line :: "pystr \<Rightarrow> nat \<Rightarrow> pystr" where
  "written_line fname lines =
     lit ''Written: '' @ fname @ lit '' ('' @ str lines @ lit '' lines)''"

definition write_entry :: "pystr \<Rightarrow> pystr \<times> json \<Rightarrow> state \<Rightarrow> outcome" where
  "write_entry base entry s =
     (case entry of (fname, b64content) \<Rightarrow>
        (case decode_content b64content of
           Inl e \<Rightarrow> Raised e s
         | Inr content \<Rightarrow>
             and_then (write_text (join base fname) content s)
               (print (written_line fname (count content chr10)))))"

text \<open>The loop over \<^verbatim>\<open>files_b64.items()\<close>: the first exception ends it.\<close>

fun write_files :: "pystr \<Rightarrow> (pystr \<times> json) list \<Rightarrow> state \<Rightarrow> outcome" where
  "write_files base [] s = Finished s"
| "write_files base (entry # rest) s =
     and_then (write_entry base entry s) (write_files base rest)"

text \<open>
  \<^verbatim>\<open>json.loads(open(os.path.join(base, '_files_data.json')).read())\<close>, with \<open>loads\<close>
  standing for \<^verbatim>\<open>json.loads\<close> (\<open>None\<close> when it raises).
\<close>

definition load_manifest ::
    "(pystr \<Rightarrow> json option) \<Rightarrow> pystr \<Rightarrow> filesystem \<Rightarrow> error + json" where
  "load_manifest loads base f =
     (case read_text f (join base manifest_name) of
        Inl e \<Rightarrow> Inl e
      | Inr txt \<Rightarrow>
          (case loads txt of
             None \<Rightarrow> Inl JSONDecodeError
           | Some files_b64 \<Rightarrow> Inr files_b64))"

text \<open>
  The whole module body. \<open>file\<close> is \<^verbatim>\<open>os.path.abspath(__file__)\<close>, the absolute path of
  the running script, and \<open>f\<close> the file system it starts in.
\<close>

definition run :: "(pystr \<Rightarrow> json option) \<Rightarrow> pystr \<Rightarrow> filesystem \<Rightarrow> outcome" where
  "run loads file f =
     (let base = dirname file; s0 = \<lparr>fs = f, trace = []\<rparr>
      in case load_manifest loads base f of
           Inl e \<Rightarrow> Raised e s0
         | Inr files_b64 \<Rightarrow>
             (case items files_b64 of
                Inl e \<Rightarrow> Raised e s0
              | Inr entries \<Rightarrow>
                  and_then (write_files base entries s0) (\<lambda>s1.
                  and_then (os_remove (join base manifest_name) s1) (\<lambda>s2.
                  and_then (os_remove (join base script_name) s2)
                    (print (lit ''Cleanup done''))))))"

text \<open>
  The command \<^verbatim>\<open>python file\<close>. The interpreter opens the script before anything of it
  runs; when there is no file to open it gives up with exit status 2 (\<^verbatim>\<open>can't open
  file\<close>) and no line of the script is reached. The file at \<open>file\<close> is taken to hold
  this script.
\<close>

datatype invocation = CannotOpenScript | Ran outcome

definition invoke :: "(pystr \<Rightarrow> json option) \<Rightarrow> pystr \<Rightarrow> filesystem \<Rightarrow> invocation" where
  "invoke loads file f =
     (case lookup_file f file of
        Inl e \<Rightarrow> CannotOpenScript
      | Inr (t, source) \<Rightarrow> Ran (run loads file f))"

subsection \<open>Observations on a run\<close>

text \<open>The state a run ends in, and whether it ended without an exception.\<close>

fun state_of :: "outcome \<Rightarrow> state" where
  "state_of (Finished s) = s"
| "state_of (Raised e s) = s"

fun finished :: "outcome \<Rightarrow> bool" where
  "finished (Finished s) = True"
| "finished (Raised e s) = False"

text \<open>
  Projections of a trace: the lines on standard output, the files written with their
  bytes, the nodes opened for writing, the nodes removed.
\<close>

fun printed :: "effect list \<Rightarrow> pystr list" where
  "printed [] = []"
| "printed (Printed line # es) = line # printed es"
| "printed (_ # es) = printed es"

fun written :: "effect list \<Rightarrow> (path \<times> bytes) list" where
  "written [] = []"
| "written (Wrote t raw # es) = (t, raw) # written es"
| "written (_ # es) = written es"

fun opened :: "effect list \<Rightarrow> path list" where
  "opened [] = []"
| "opened (Opened t # es) = t # opened es"
| "opened (_ # es) = opened es"

fun removed :: "effect list \<Rightarrow> path list" where
  "removed [] = []"
| "removed (Removed t # es) = t # removed es"
| "removed (_ # es) = removed es"

text \<open>
  The decoded bytes and the decoded text of a manifest value (empty where decoding
  raises), and the standard output line of an entry.
\<close>

fun payload_of :: "json \<Rightarrow> bytes" where
  "payload_of (JString b64content) =
     (case b64decode b64content of Inl e \<Rightarrow> [] | Inr raw \<Rightarrow> raw)"
| "payload_of _ = []"

definition content_of :: "json \<Rightarrow> pystr" where
  "content_of v = (case decode_content v of Inl e \<Rightarrow> [] | Inr content \<Rightarrow> content)"

definition entry_line :: "pystr \<times> json \<Rightarrow> pystr" where
  "entry_line entry = written_line (fst entry) (count (content_of (snd entry)) chr10)"

text \<open>
  An entry is writable in a file system when its value decodes and its destination
  can be opened for writing there.
\<close>

definition writable :: "filesystem \<Rightarrow> pystr \<Rightarrow> pystr \<times> json \<Rightarrow> bool" where
  "writable f base entry =
     (case decode_content (snd entry) of
        Inl e \<Rightarrow> False
      | Inr content \<Rightarrow>
          (case open_w f (join base (fst entry)) of Inl e \<Rightarrow> False | Inr t \<Rightarrow> True))"

text \<open>The effects of the loop body on a writable entry.\<close>

definition entry_effects :: "filesystem \<Rightarrow> pystr \<Rightarrow> pystr \<times> json \<Rightarrow> effect list" where
  "entry_effects f base entry =
     (case open_w f (join base (fst entry)) of
        Inl e \<Rightarrow> []
      | Inr t \<Rightarrow> [Opened t, Wrote t (payload_of (snd entry)), Printed (entry_line entry)])"

text \<open>
  Two file systems with the same directories; and a file system that has all the
  nodes of another one and the same directories.
\<close>

definition same_dirs :: "filesystem \<Rightarrow> filesystem \<Rightarrow> bool" where
  "same_dirs f g \<longleftrightarrow> (\<forall>p. f p = Some Dir \<longleftrightarrow> g p = Some Dir)"

definition grown :: "filesystem \<Rightarrow> filesystem \<Rightarrow> bool" where
  "grown f g \<longleftrightarrow> same_dirs f g \<and> (\<forall>p. f p \<noteq> None \<longrightarrow> g p \<noteq> None)"

text \<open>The node an entry is written at in a file system (the root where it cannot be).\<close>

definition destination :: "filesystem \<Rightarrow> pystr \<Rightarrow> pystr \<times> json \<Rightarrow> path" where
  "destination f base entry =
     (case open_w f (join base (fst entry)) of Inl e \<Rightarrow> [] | Inr t \<Rightarrow> t)"

subsection \<open>An installation to run the script in\<close>

text \<open>
  The script at \<^verbatim>\<open>/site/_write_files.py\<close>, with a manifest of given bytes beside it; and
  a parser that knows one manifest text.
\<close>

definition site_file :: pystr where
  "site_file = lit ''/site/_write_files.py''"

definition install :: "bytes \<Rightarrow> filesystem" where
  "install manifest_raw =
     [[lit ''site''] \<mapsto> Dir,
      [lit ''site'', manifest_name] \<mapsto> File manifest_raw,
      [lit ''site'', script_name] \<mapsto> File (lit ''import os, base64, json'')]"

definition loads_as :: "pystr \<Rightarrow> json \<Rightarrow> pystr \<Rightarrow> json option" where
  "loads_as txt j t = (if t = txt then Some j else None)"

text \<open>
  Scenario B of the specification: \<^verbatim>\<open>a.txt\<close> holds \<^verbatim>\<open>x\<close>, \<^verbatim>\<open>b.txt\<close> holds two lines.
\<close>

definition text_B :: pystr where
  \<open>text_B = lit ''{"a.txt": "eA==", "b.txt": "eQp6Cg=="}''\<close>

definition manifest_B :: json where
  "manifest_B =
     JObject [(lit ''a.txt'', JString (lit ''eA=='')), (lit ''b.txt'', JString (lit ''eQp6Cg==''))]"

text \<open>
  Further manifests: the two line-count examples of the specification; a value with
  incorrect padding between two good entries; a key below a directory that does not
  exist; keys that name the manifest and the script; and two keys for one file.
\<close>

definition text_L :: pystr where
  \<open>text_L = lit ''{"one.txt": "YQpiCmM=", "two.txt": "YQpiCmMK"}''\<close>

definition manifest_L :: json where
  "manifest_L =
     JObject [(lit ''one.txt'', JString (lit ''YQpiCmM='')),
              (lit ''two.txt'', JString (lit ''YQpiCmMK''))]"

definition text_D :: pystr where
  \<open>text_D = lit ''{"a.txt": "eA==", "bad.txt": "eA=", "c.txt": "eQ=="}''\<close>

definition manifest_D :: json where
  "manifest_D =
     JObject [(lit ''a.txt'', JString (lit ''eA=='')),
              (lit ''bad.txt'', JString (lit ''eA='')),
              (lit ''c.txt'', JString (lit ''eQ==''))]"

definition text_S :: pystr where
  \<open>text_S = lit ''{"a.txt": "eA==", "sub/x.txt": "eQ=="}''\<close>

definition manifest_S :: json where
  "manifest_S =
     JObject [(lit ''a.txt'', JString (lit ''eA=='')),
              (lit ''sub/x.txt'', JString (lit ''eQ==''))]"

definition text_K :: pystr where
  \<open>text_K = lit ''{"_files_data.json": "eA=="}''\<close>

definition manifest_K :: json where
  "manifest_K = JObject [(lit ''_files_data.json'', JString (lit ''eA==''))]"

definition text_W :: pystr where
  \<open>text_W = lit ''{"_write_files.py": "eA=="}''\<close>

definition manifest_W :: json where
  "manifest_W = JObject [(lit ''_write_files.py'', JString (lit ''eA==''))]"

definition text_A :: pystr where
  \<open>text_A = lit ''{"a.txt": "eA==", "./a.txt": "eQ=="}''\<close>

definition manifest_A :: json where
  "manifest_A =
     JObject [(lit ''a.txt'', JString (lit ''eA=='')),
              (lit ''./a.txt'', JString (lit ''eQ==''))]"

text \<open>
  A value made of characters outside the base64 alphabet; and the script installed
  under another name, \<^verbatim>\<open>/site/other.py\<close>, beside a file \<^verbatim>\<open>_write_files.py\<close>.
\<close>

definition text_V :: pystr where
  \<open>text_V = lit ''{"a.txt": "****"}''\<close>

definition manifest_V :: json where
  "manifest_V = JObject [(lit ''a.txt'', JString (lit ''****''))]"

definition other_file :: pystr where
  "other_file = lit ''/site/other.py''"

definition install_other :: "bytes \<Rightarrow> filesystem" where
  "install_other manifest_raw =
     (install manifest_raw)([lit ''site'', lit ''other.py''] \<mapsto>
        File (lit ''import os, base64, json''))"

section \<open>Properties of the library functions\<close>

subsection \<open>Base64: decoding inverts encoding\<close>

lemma table_roundtrip: "i < 64 \<Longrightarrow> table_a2b (table_b2a i) = Some i"
  by (auto simp: table_a2b_def table_b2a_def)

lemma table_b2a_not_pad: "table_b2a i \<noteq> BASE64_PAD"
  by (auto simp: table_b2a_def BASE64_PAD_def)

lemma table_b2a_ascii: "table_b2a i < 128"
  by (auto simp: table_b2a_def)

lemma a2b_data:
  "v < 64 \<Longrightarrow> a2b_base64 q l p (table_b2a v # rest) =
     (if q = 0 then a2b_base64 1 v 0 rest
      else if q = 1 then emit (l * 4 + v div 16) (a2b_base64 2 (v mod 16) 0 rest)
      else if q = 2 then emit (l * 16 + v div 4) (a2b_base64 3 (v mod 4) 0 rest)
      else emit (l * 64 + v) (a2b_base64 0 0 0 rest))"
  by (simp add: table_roundtrip table_b2a_not_pad)

lemma a2b_quad:
  assumes "v0 < 64" "v1 < 64" "v2 < 64" "v3 < 64"
  shows "a2b_base64 0 0 0 (table_b2a v0 # table_b2a v1 # table_b2a v2 # table_b2a v3 # rest) =
     emit (v0 * 4 + v1 div 16) (emit (v1 mod 16 * 16 + v2 div 4)
       (emit (v2 mod 4 * 64 + v3) (a2b_base64 0 0 0 rest)))"
  using assms by (simp add: a2b_data del: a2b_base64.simps)

lemma a2b_b64encode:
  "\<forall>b \<in> set raw. b < 256 \<Longrightarrow> a2b_base64 0 0 0 (b64encode raw) = Inr raw"
proof (induction raw rule: b64encode.induct)
  case 1
  show ?case by simp
next
  case (2 a)
  then have a: "a < 256" by simp
  have "a2b_base64 0 0 0 (b64encode [a]) = emit (a div 4 * 4 + a mod 4 * 16 div 16) (a2b_base64 2 (a mod 4 * 16 mod 16) 0 [BASE64_PAD, BASE64_PAD])"
    using a by (simp add: a2b_data del: a2b_base64.simps)
  also have "a2b_base64 2 (a mod 4 * 16 mod 16) 0 [BASE64_PAD, BASE64_PAD] = Inr []"
    by simp
  also have "a div 4 * 4 + a mod 4 * 16 div 16 = a" by simp
  finally show ?case by simp
next
  case (3 a b)
  then have a: "a < 256" and b: "b < 256" by simp_all
  have "a2b_base64 0 0 0 (b64encode [a, b]) =
      emit (a div 4 * 4 + (a mod 4 * 16 + b div 16) div 16)
        (emit ((a mod 4 * 16 + b div 16) mod 16 * 16 + b mod 16 * 4 div 4)
           (a2b_base64 3 (b mod 16 * 4 mod 4) 0 [BASE64_PAD]))"
    using a b by (simp add: a2b_data del: a2b_base64.simps)
  also have "a2b_base64 3 (b mod 16 * 4 mod 4) 0 [BASE64_PAD] = Inr []"
    by simp
  also have "a div 4 * 4 + (a mod 4 * 16 + b div 16) div 16 = a" using b by simp
  also have "(a mod 4 * 16 + b div 16) mod 16 * 16 + b mod 16 * 4 div 4 = b" using b by simp
  finally show ?case by simp
next
  case (4 a b c rest)
  then have a: "a < 256" and b: "b < 256" and c: "c < 256" and r: "\<forall>x\<in>set rest. x < 256"
    by simp_all
  have e1: "a div 4 * 4 + (a mod 4 * 16 + b div 16) div 16 = a" using b by simp
  have e2: "(a mod 4 * 16 + b div 16) mod 16 * 16 + (b mod 16 * 4 + c div 64) div 4 = b"
    using b c by simp
  have e3: "(b mod 16 * 4 + c div 64) mod 4 * 64 + c mod 64 = c" using c by simp
  have "a2b_base64 0 0 0 (b64encode (a # b # c # rest)) =
     emit (a div 4 * 4 + (a mod 4 * 16 + b div 16) div 16)
      (emit ((a mod 4 * 16 + b div 16) mod 16 * 16 + (b mod 16 * 4 + c div 64) div 4)
       (emit ((b mod 16 * 4 + c div 64) mod 4 * 64 + c mod 64) (a2b_base64 0 0 0 (b64encode rest))))"
    using a b c by (simp add: a2b_quad del: a2b_base64.simps)
  also have "\<dots> = emit a (emit b (emit c (Inr rest)))"
    using "4.IH" r by (simp only: e1 e2 e3)
  finally show ?case by simp
qed

lemma b64encode_ascii: "\<forall>c \<in> set (b64encode raw). c < 128"
  by (induction raw rule: b64encode.induct) (simp_all add: table_b2a_ascii BASE64_PAD_def)

lemma b64_roundtrip:
  "\<forall>b \<in> set raw. b < 256 \<Longrightarrow> b64decode (b64encode raw) = Inr raw"
  using b64encode_ascii[of raw] by (auto simp: b64decode_def a2b_b64encode simp del: a2b_base64.simps)

text \<open>A character outside the alphabet, other than the padding, is discarded.\<close>

lemma a2b_base64_skips:
  assumes "table_a2b c = None" "c \<noteq> BASE64_PAD"
  shows "a2b_base64 q l p (xs @ c # ys) = a2b_base64 q l p (xs @ ys)"
proof (induction xs arbitrary: q l p)
  case Nil
  show ?case using assms by simp
next
  case (Cons x xs)
  show ?case by (simp add: Cons.IH split: option.splits)
qed

lemma b64decode_skips:
  assumes "table_a2b c = None" "c \<noteq> BASE64_PAD" "c < 128"
  shows "b64decode (xs @ c # ys) = b64decode (xs @ ys)"
proof -
  have "(\<exists>x \<in> set (xs @ c # ys). x \<ge> 128) = (\<exists>x \<in> set (xs @ ys). x \<ge> 128)"
    using assms(3) by auto
  then show ?thesis
    unfolding b64decode_def a2b_base64_skips[OF assms(1,2)] by simp
qed

subsection \<open>UTF-8: decoding and encoding invert each other\<close>

lemma emit_Inr_iff: "emit b r = Inr xs \<longleftrightarrow> (\<exists>ys. r = Inr ys \<and> xs = b # ys)"
  by (cases r) auto

lemmas utf8_decode_Cons = utf8_decode.simps(2)
declare utf8_decode.simps(2) [simp del]
lemmas utf8_encode_Cons = utf8_encode.simps(2)
declare utf8_encode.simps(2) [simp del]

lemma digit64: "z < 64 \<Longrightarrow> (n * 64 + z) div 64 = (n::nat) \<and> (n * 64 + z) mod 64 = z"
  by simp

lemma horner64: "d = q * 64 + r \<Longrightarrow> q * (64 * k) + r * k = d * (k::nat)"
  by (simp add: algebra_simps)

lemma split3: "(c::nat) div 4096 * 4096 + c div 64 mod 64 * 64 + c mod 64 = c"
proof -
  have "c div 4096 = c div 64 div 64" by (simp add: div_mult2_eq)
  moreover have "c div 64 div 64 * (64 * 64) + c div 64 mod 64 * 64 = c div 64 * 64"
    by (rule horner64) simp
  ultimately have "c div 4096 * 4096 + c div 64 mod 64 * 64 = c div 64 * 64" by simp
  then show ?thesis by simp
qed

lemma split4: "(c::nat) div 262144 * 262144 + c div 4096 mod 64 * 4096 + c div 64 mod 64 * 64 + c mod 64 = c"
proof -
  have "c div 262144 = c div 4096 div 64" by (simp add: div_mult2_eq)
  moreover have "c div 4096 div 64 * (64 * 4096) + c div 4096 mod 64 * 4096 = c div 4096 * 4096"
    by (rule horner64) simp
  ultimately have "c div 262144 * 262144 + c div 4096 mod 64 * 4096 = c div 4096 * 4096" by simp
  then show ?thesis using split3[of c] by simp
qed

lemma join3:
  assumes "y < 64" "z < 64"
  shows "(x * 4096 + y * 64 + z) div 4096 = (x::nat)"
    "(x * 4096 + y * 64 + z) div 64 mod 64 = y"
    "(x * 4096 + y * 64 + z) mod 64 = z"
proof -
  have h: "x * 4096 + y * 64 + z = (x * 64 + y) * 64 + z" by simp
  have d: "(x * 4096 + y * 64 + z) div 64 = x * 64 + y"
    unfolding h using digit64[OF assms(2)] by blast
  show "(x * 4096 + y * 64 + z) mod 64 = z"
    unfolding h using digit64[OF assms(2)] by blast
  show "(x * 4096 + y * 64 + z) div 64 mod 64 = y"
    unfolding d using digit64[OF assms(1)] by blast
  have "(x * 4096 + y * 64 + z) div 4096 = (x * 4096 + y * 64 + z) div 64 div 64"
    by (simp add: div_mult2_eq)
  then show "(x * 4096 + y * 64 + z) div 4096 = x"
    unfolding d using digit64[OF assms(1)] by simp
qed

lemma join4:
  assumes "y < 64" "z < 64" "w < 64"
  shows "(x * 262144 + y * 4096 + z * 64 + w) div 262144 = (x::nat)"
    "(x * 262144 + y * 4096 + z * 64 + w) div 4096 mod 64 = y"
    "(x * 262144 + y * 4096 + z * 64 + w) div 64 mod 64 = z"
    "(x * 262144 + y * 4096 + z * 64 + w) mod 64 = w"
proof -
  have h: "x * 262144 + y * 4096 + z * 64 + w = (x * 64 + y) * 4096 + z * 64 + w" by simp
  show "(x * 262144 + y * 4096 + z * 64 + w) div 4096 mod 64 = y"
    unfolding h join3(1)[OF assms(2,3)] using digit64[OF assms(1)] by blast
  show "(x * 262144 + y * 4096 + z * 64 + w) div 64 mod 64 = z"
    unfolding h by (rule join3(2)[OF assms(2,3)])
  show "(x * 262144 + y * 4096 + z * 64 + w) mod 64 = w"
    unfolding h by (rule join3(3)[OF assms(2,3)])
  have "(x * 262144 + y * 4096 + z * 64 + w) div 262144 = (x * 262144 + y * 4096 + z * 64 + w) div 4096 div 64"
    by (simp add: div_mult2_eq)
  then show "(x * 262144 + y * 4096 + z * 64 + w) div 262144 = x"
    unfolding h join3(1)[OF assms(2,3)] using digit64[OF assms(1)] by simp
qed


lemma dec1: "c < 128 \<Longrightarrow> utf8_decode (c # r) = emit c (utf8_decode r)"
  by (simp add: utf8_decode_Cons)

lemma dec2:
  assumes "128 \<le> c" "c < 2048"
  shows "utf8_decode ((192 + c div 64) # (128 + c mod 64) # r) = emit c (utf8_decode r)"
proof -
  have "c div 64 < 32" using assms(2) by (simp add: div_less_iff_less_mult)
  then have "192 \<le> 192 + c div 64" "192 + c div 64 < 224" "\<not> 192 + c div 64 < 128"
    by simp_all
  moreover have "is_cont (128 + c mod 64)" by (simp add: is_cont_def)
  moreover have "(192 + c div 64 - 192) * 64 + (128 + c mod 64 - 128) = c" by simp
  ultimately show ?thesis using assms(1) by (simp add: utf8_decode_Cons Let_def)
qed

lemma dec3:
  assumes "2048 \<le> c" "c < 65536" "\<not> is_surrogate c"
  shows "utf8_decode ((224 + c div 4096) # (128 + c div 64 mod 64) # (128 + c mod 64) # r) =
           emit c (utf8_decode r)"
proof -
  have "c div 4096 < 16" using assms(2) by (simp add: div_less_iff_less_mult)
  then have "224 \<le> 224 + c div 4096" "224 + c div 4096 < 240" "\<not> 224 + c div 4096 < 128"
       "\<not> (192 \<le> 224 + c div 4096 \<and> 224 + c div 4096 < 224)"
    by simp_all
  moreover have "is_cont (128 + c div 64 mod 64)" "is_cont (128 + c mod 64)"
    by (simp_all add: is_cont_def)
  moreover have "(224 + c div 4096 - 224) * 4096 + (128 + c div 64 mod 64 - 128) * 64 +
      (128 + c mod 64 - 128) = c" using split3[of c] by simp
  ultimately show ?thesis using assms by (simp add: utf8_decode_Cons Let_def)
qed

lemma dec4:
  assumes "65536 \<le> c" "c < 1114112"
  shows "utf8_decode ((240 + c div 262144) # (128 + c div 4096 mod 64) #
            (128 + c div 64 mod 64) # (128 + c mod 64) # r) = emit c (utf8_decode r)"
proof -
  have "c div 262144 < 8" using assms(2) by (simp add: div_less_iff_less_mult)
  then have "240 \<le> 240 + c div 262144" "240 + c div 262144 < 248" "\<not> 240 + c div 262144 < 128"
       "\<not> (192 \<le> 240 + c div 262144 \<and> 240 + c div 262144 < 224)"
       "\<not> (224 \<le> 240 + c div 262144 \<and> 240 + c div 262144 < 240)"
    by simp_all
  moreover have "is_cont (128 + c div 4096 mod 64)" "is_cont (128 + c div 64 mod 64)"
      "is_cont (128 + c mod 64)"
    by (simp_all add: is_cont_def)
  moreover have "(240 + c div 262144 - 240) * 262144 + (128 + c div 4096 mod 64 - 128) * 4096 +
      (128 + c div 64 mod 64 - 128) * 64 + (128 + c mod 64 - 128) = c"
    using split4[of c] by simp
  ultimately show ?thesis using assms by (simp add: utf8_decode_Cons Let_def)
qed

lemma utf8_encode_decode: "utf8_encode T = Inr raw \<Longrightarrow> utf8_decode raw = Inr T"
proof (induction T arbitrary: raw)
  case Nil
  then show ?case by simp
next
  case (Cons c cs)
  consider (a) "c < 128" | (b) "128 \<le> c" "c < 2048" | (c) "2048 \<le> c" "c < 65536"
    | (d) "65536 \<le> c" "c < 1114112" | (e) "1114112 \<le> c"
    by linarith
  then show ?case
  proof cases
    case a
    with Cons.prems obtain r where "utf8_encode cs = Inr r" "raw = c # r"
      by (auto simp: utf8_encode_Cons emit_Inr_iff)
    with Cons.IH a show ?thesis by (simp add: dec1)
  next
    case b
    with Cons.prems obtain r where "utf8_encode cs = Inr r"
        "raw = (192 + c div 64) # (128 + c mod 64) # r"
      by (auto simp: utf8_encode_Cons emit_Inr_iff)
    with Cons.IH b show ?thesis by (simp add: dec2)
  next
    case c
    with Cons.prems have ns: "\<not> is_surrogate c"
      by (auto simp: utf8_encode_Cons split: if_splits)
    with c Cons.prems obtain r where "utf8_encode cs = Inr r"
        "raw = (224 + c div 4096) # (128 + c div 64 mod 64) # (128 + c mod 64) # r"
      by (auto simp: utf8_encode_Cons emit_Inr_iff)
    with Cons.IH c ns show ?thesis by (simp add: dec3)
  next
    case d
    with Cons.prems obtain r where "utf8_encode cs = Inr r"
        "raw = (240 + c div 262144) # (128 + c div 4096 mod 64) #
            (128 + c div 64 mod 64) # (128 + c mod 64) # r"
      by (auto simp: utf8_encode_Cons emit_Inr_iff)
    with Cons.IH d show ?thesis by (simp add: dec4)
  next
    case e
    with Cons.prems show ?thesis by (simp add: utf8_encode_Cons)
  qed
qed



text \<open>Encoding what the decoder accepted as one code point.\<close>

lemma enc2:
  assumes "192 \<le> b0" "b0 < 224" "is_cont b1" "128 \<le> (b0 - 192) * 64 + (b1 - 128)"
  shows "utf8_encode (((b0 - 192) * 64 + (b1 - 128)) # cs) = emit b0 (emit b1 (utf8_encode cs))"
proof -
  define x y where "x = b0 - 192" and "y = b1 - 128"
  have xy: "x < 32" "y < 64" "192 + x = b0" "128 + y = b1"
    using assms(1-3) unfolding x_def y_def is_cont_def by auto
  have "128 \<le> x * 64 + y" using assms(4) unfolding x_def y_def .
  moreover have "x * 64 + y < 2048" using xy(1,2) by simp
  moreover have "(x * 64 + y) div 64 = x" "(x * 64 + y) mod 64 = y"
    using digit64[OF xy(2)] by blast+
  ultimately have "utf8_encode ((x * 64 + y) # cs) = emit (192 + x) (emit (128 + y) (utf8_encode cs))"
    by (simp add: utf8_encode_Cons)
  then show ?thesis unfolding xy(3,4) unfolding x_def y_def .
qed

lemma enc3:
  assumes "224 \<le> b0" "b0 < 240" "is_cont b1" "is_cont b2"
    "2048 \<le> (b0 - 224) * 4096 + (b1 - 128) * 64 + (b2 - 128)"
    "\<not> is_surrogate ((b0 - 224) * 4096 + (b1 - 128) * 64 + (b2 - 128))"
  shows "utf8_encode (((b0 - 224) * 4096 + (b1 - 128) * 64 + (b2 - 128)) # cs) =
     emit b0 (emit b1 (emit b2 (utf8_encode cs)))"
proof -
  define x y z where "x = b0 - 224" and "y = b1 - 128" and "z = b2 - 128"
  have xy: "x < 16" "y < 64" "z < 64" "224 + x = b0" "128 + y = b1" "128 + z = b2"
    using assms(1-4) unfolding x_def y_def z_def is_cont_def by auto
  have "2048 \<le> x * 4096 + y * 64 + z" "\<not> is_surrogate (x * 4096 + y * 64 + z)"
    using assms(5,6) unfolding x_def y_def z_def .
  moreover have "x * 4096 + y * 64 + z < 65536" using xy(1-3) by simp
  moreover note join3[OF xy(2,3), of x]
  ultimately have "utf8_encode ((x * 4096 + y * 64 + z) # cs) =
      emit (224 + x) (emit (128 + y) (emit (128 + z) (utf8_encode cs)))"
    by (simp add: utf8_encode_Cons)
  then show ?thesis unfolding xy(4-6) unfolding x_def y_def z_def .
qed

lemma enc4:
  assumes "240 \<le> b0" "b0 < 248" "is_cont b1" "is_cont b2" "is_cont b3"
    "65536 \<le> (b0 - 240) * 262144 + (b1 - 128) * 4096 + (b2 - 128) * 64 + (b3 - 128)"
    "(b0 - 240) * 262144 + (b1 - 128) * 4096 + (b2 - 128) * 64 + (b3 - 128) < 1114112"
  shows "utf8_encode (((b0 - 240) * 262144 + (b1 - 128) * 4096 + (b2 - 128) * 64 + (b3 - 128)) # cs) =
     emit b0 (emit b1 (emit b2 (emit b3 (utf8_encode cs))))"
proof -
  define x y z w where "x = b0 - 240" and "y = b1 - 128" and "z = b2 - 128" and "w = b3 - 128"
  have xy: "y < 64" "z < 64" "w < 64" "240 + x = b0" "128 + y = b1" "128 + z = b2" "128 + w = b3"
    using assms(1-5) unfolding x_def y_def z_def w_def is_cont_def by auto
  have "65536 \<le> x * 262144 + y * 4096 + z * 64 + w" "x * 262144 + y * 4096 + z * 64 + w < 1114112"
    using assms(6,7) unfolding x_def y_def z_def w_def .
  moreover note join4[OF xy(1-3), of x]
  ultimately have "utf8_encode ((x * 262144 + y * 4096 + z * 64 + w) # cs) =
      emit (240 + x) (emit (128 + y) (emit (128 + z) (emit (128 + w) (utf8_encode cs))))"
    by (simp add: utf8_encode_Cons)
  then show ?thesis unfolding xy(4-7) unfolding x_def y_def z_def w_def .
qed

lemma utf8_decode_encode: "utf8_decode raw = Inr T \<Longrightarrow> utf8_encode T = Inr raw"
proof (induction "length raw" arbitrary: raw T rule: less_induct)
  case less
  show ?case
  proof (cases raw)
    case Nil
    with less.prems show ?thesis by simp
  next
    case (Cons b0 bs)
    consider (a) "b0 < 128" | (b) "192 \<le> b0" "b0 < 224" | (c) "224 \<le> b0" "b0 < 240"
      | (d) "240 \<le> b0" "b0 < 248" | (e) "128 \<le> b0 \<and> b0 < 192 \<or> 248 \<le> b0"
      by linarith
    then show ?thesis
    proof cases
      case a
      with less.prems Cons obtain cs where cs: "utf8_decode bs = Inr cs" "T = b0 # cs"
        by (auto simp: utf8_decode_Cons emit_Inr_iff)
      have "utf8_encode cs = Inr bs" using less.hyps[OF _ cs(1)] Cons by simp
      then show ?thesis using a Cons cs(2) by (simp add: utf8_encode_Cons)
    next
      case b
      from less.prems Cons b obtain b1 r cs where *: "bs = b1 # r" "is_cont b1"
          "128 \<le> (b0 - 192) * 64 + (b1 - 128)" "utf8_decode r = Inr cs"
          "T = ((b0 - 192) * 64 + (b1 - 128)) # cs"
        by (auto simp: utf8_decode_Cons emit_Inr_iff Let_def split: list.splits if_splits)
      have "utf8_encode cs = Inr r" using less.hyps[OF _ *(4)] Cons *(1) by simp
      then show ?thesis unfolding *(5) Cons *(1) by (simp add: enc2[OF b *(2,3)])
    next
      case c
      from less.prems Cons c obtain b1 b2 r cs where *: "bs = b1 # b2 # r" "is_cont b1" "is_cont b2"
          "2048 \<le> (b0 - 224) * 4096 + (b1 - 128) * 64 + (b2 - 128)"
          "\<not> is_surrogate ((b0 - 224) * 4096 + (b1 - 128) * 64 + (b2 - 128))"
          "utf8_decode r = Inr cs"
          "T = ((b0 - 224) * 4096 + (b1 - 128) * 64 + (b2 - 128)) # cs"
        by (auto simp: utf8_decode_Cons emit_Inr_iff Let_def split: list.splits if_splits)
      have "utf8_encode cs = Inr r" using less.hyps[OF _ *(6)] Cons *(1) by simp
      then show ?thesis unfolding *(7) Cons *(1) by (simp add: enc3[OF c *(2-5)])
    next
      case d
      from less.prems Cons d obtain b1 b2 b3 r cs where *: "bs = b1 # b2 # b3 # r"
          "is_cont b1" "is_cont b2" "is_cont b3"
          "65536 \<le> (b0 - 240) * 262144 + (b1 - 128) * 4096 + (b2 - 128) * 64 + (b3 - 128)"
          "(b0 - 240) * 262144 + (b1 - 128) * 4096 + (b2 - 128) * 64 + (b3 - 128) < 1114112"
          "utf8_decode r = Inr cs"
          "T = ((b0 - 240) * 262144 + (b1 - 128) * 4096 + (b2 - 128) * 64 + (b3 - 128)) # cs"
        by (auto simp: utf8_decode_Cons emit_Inr_iff Let_def split: list.splits if_splits)
      have "utf8_encode cs = Inr r" using less.hyps[OF _ *(7)] Cons *(1) by simp
      then show ?thesis unfolding *(8) Cons *(1) by (simp add: enc4[OF d *(2-6)])
    next
      case e
      with less.prems Cons show ?thesis by (auto simp: utf8_decode_Cons)
    qed
  qed
qed

lemma utf8_encode_bytes: "utf8_encode T = Inr raw \<Longrightarrow> b \<in> set raw \<Longrightarrow> b < 256"
proof (induction T arbitrary: raw)
  case Nil
  then show ?case by simp
next
  case (Cons c cs)
  have d: "c < 2048 \<Longrightarrow> c div 64 < 32" "c < 65536 \<Longrightarrow> c div 4096 < 16"
    "c < 1114112 \<Longrightarrow> c div 262144 < 8"
    by (simp_all add: div_less_iff_less_mult)
  have m: "c mod 64 < 64" "c div 64 mod 64 < 64" "c div 4096 mod 64 < 64" by simp_all
  show ?case using Cons.prems Cons.IH d m
    by (auto simp: utf8_encode_Cons emit_Inr_iff split: if_splits)
qed

section \<open>Properties of the file system operations\<close>

lemma same_dirs_D: "same_dirs f g \<Longrightarrow> (f p = Some Dir) = (g p = Some Dir)"
  by (simp add: same_dirs_def)

lemma same_dirs_refl: "same_dirs f f"
  by (simp add: same_dirs_def)

lemma same_dirs_sym: "same_dirs f g \<Longrightarrow> same_dirs g f"
  by (simp add: same_dirs_def)

lemma same_dirs_trans: "same_dirs f g \<Longrightarrow> same_dirs g h \<Longrightarrow> same_dirs f h"
  by (simp add: same_dirs_def)

lemma same_dirs_write: "f t \<noteq> Some Dir \<Longrightarrow> same_dirs f (f(t \<mapsto> File raw))"
  by (simp add: same_dirs_def)

lemma same_dirs_remove: "f t \<noteq> Some Dir \<Longrightarrow> same_dirs f (f(t := None))"
  by (simp add: same_dirs_def)

lemma walk_same_dirs:
  "same_dirs f g \<Longrightarrow> walk f cur cs = Inr d \<Longrightarrow> walk g cur cs = Inr d"
proof (induction cs arbitrary: cur)
  case Nil
  then show ?case by simp
next
  case (Cons c cs)
  show ?case
  proof (cases "c = [] \<or> c = dot \<or> c = dotdot")
    case True
    with Cons show ?thesis by (auto split: if_splits)
  next
    case False
    with Cons.prems(2) have "f (cur @ [c]) = Some Dir" "walk f (cur @ [c]) cs = Inr d"
      by (auto split: option.splits node.splits)
    moreover from this same_dirs_D[OF Cons.prems(1), of "cur @ [c]"]
    have "g (cur @ [c]) = Some Dir" by simp
    ultimately show ?thesis using False Cons.IH[OF Cons.prems(1)] by simp
  qed
qed

lemma resolve_target_node:
  "resolve f p = Inr (t, n) \<Longrightarrow> n = Some Dir \<or> n = f t"
  by (auto simp: resolve_def Let_def split: if_splits sum.splits)

lemma resolve_same_dirs:
  assumes "same_dirs f g" "resolve f p = Inr (t, n)"
  shows "resolve g p = Inr (t, if n = Some Dir then Some Dir else g t)"
proof -
  from assms(2) obtain d where d: "walk f [] (butlast (split_sep p)) = Inr d"
    and p: "0 \<notin> set p" "p \<noteq> []"
    by (auto simp: resolve_def split: if_splits sum.splits)
  have g: "walk g [] (butlast (split_sep p)) = Inr d"
    by (rule walk_same_dirs[OF assms(1) d])
  show ?thesis
    using assms d g p unfolding resolve_def Let_def same_dirs_def
    by (auto split: if_splits)
qed

lemma open_w_same_dirs:
  assumes "same_dirs f g" "open_w f p = Inr t"
  shows "open_w g p = Inr t"
proof -
  from assms(2) obtain n where n: "resolve f p = Inr (t, n)" "n \<noteq> Some Dir"
    by (auto simp: open_w_def split: sum.splits option.splits node.splits)
  from resolve_target_node[OF n(1)] n(2) have "f t \<noteq> Some Dir" by auto
  then have "g t \<noteq> Some Dir" using same_dirs_D[OF assms(1), of t] by simp
  with resolve_same_dirs[OF assms(1) n(1)] n(2) show ?thesis
    by (auto simp: open_w_def split: option.splits node.splits)
qed

lemma open_w_same_dirs_iff:
  "same_dirs f g \<Longrightarrow> open_w f p = Inr t \<longleftrightarrow> open_w g p = Inr t"
  using open_w_same_dirs same_dirs_sym by blast

lemma open_w_not_dir: "open_w f p = Inr t \<Longrightarrow> f t \<noteq> Some Dir"
proof -
  assume a: "open_w f p = Inr t"
  then obtain n where n: "resolve f p = Inr (t, n)" "n \<noteq> Some Dir"
    by (auto simp: open_w_def split: sum.splits option.splits node.splits)
  from resolve_target_node[OF n(1)] n(2) show ?thesis by auto
qed

lemma lookup_file_node: "lookup_file f p = Inr (t, raw) \<Longrightarrow> f t = Some (File raw)"
proof -
  assume a: "lookup_file f p = Inr (t, raw)"
  then have "resolve f p = Inr (t, Some (File raw))"
    by (auto simp: lookup_file_def split: sum.splits option.splits node.splits)
  from resolve_target_node[OF this] show ?thesis by auto
qed

lemma lookup_file_same_dirs:
  assumes "same_dirs f g" "lookup_file f p = Inr (t, raw)"
  shows "lookup_file g p =
     (case g t of None \<Rightarrow> Inl FileNotFoundError | Some Dir \<Rightarrow> Inl IsADirectoryError
      | Some (File raw') \<Rightarrow> Inr (t, raw'))"
proof -
  from assms(2) have r: "resolve f p = Inr (t, Some (File raw))"
    by (auto simp: lookup_file_def split: sum.splits option.splits node.splits)
  from resolve_same_dirs[OF assms(1) r] show ?thesis
    by (simp add: lookup_file_def)
qed

lemma lookup_file_open_w: "lookup_file f p = Inr (t, raw) \<Longrightarrow> open_w f p = Inr t"
  by (auto simp: lookup_file_def open_w_def split: sum.splits option.splits node.splits)

lemma grown_refl: "grown f f"
  by (simp add: grown_def same_dirs_refl)

lemma grown_trans: "grown f g \<Longrightarrow> grown g h \<Longrightarrow> grown f h"
  unfolding grown_def using same_dirs_trans by blast

lemma grown_write: "f t \<noteq> Some Dir \<Longrightarrow> grown f (f(t \<mapsto> File raw))"
  by (simp add: grown_def same_dirs_write)

lemma grown_lookup_file:
  assumes "grown f g" "lookup_file f p = Inr (t, raw)"
  shows "\<exists>raw'. lookup_file g p = Inr (t, raw')"
proof -
  have ft: "f t = Some (File raw)" by (rule lookup_file_node[OF assms(2)])
  have sd: "same_dirs f g" using assms(1) by (simp add: grown_def)
  have "g t \<noteq> None" using assms(1) ft by (simp add: grown_def)
  moreover have "g t \<noteq> Some Dir" using same_dirs_D[OF sd, of t] ft by simp
  ultimately have k: "g t \<noteq> None" "g t \<noteq> Some Dir" .
  then obtain raw' where "g t = Some (File raw')" by (cases "g t") (auto intro: node.exhaust)
  with lookup_file_same_dirs[OF sd assms(2)] show ?thesis by simp
qed

section \<open>Properties of the loop\<close>

lemma decode_content_payload:
  assumes "decode_content v = Inr content"
  shows "utf8_encode content = Inr (payload_of v)" "utf8_decode (payload_of v) = Inr content"
    "content_of v = content"
proof -
  from assms obtain b64 raw where v: "v = JString b64" "b64decode b64 = Inr raw"
      "utf8_decode raw = Inr content"
    by (cases v) (auto split: sum.splits)
  then show "utf8_decode (payload_of v) = Inr content" by simp
  from v show "utf8_encode content = Inr (payload_of v)" by (simp add: utf8_decode_encode)
  from assms show "content_of v = content" by (simp add: content_of_def)
qed

lemma writable_iff:
  "writable f base e \<longleftrightarrow>
     (\<exists>content t. decode_content (snd e) = Inr content \<and> open_w f (join base (fst e)) = Inr t)"
  by (auto simp: writable_def split: sum.splits)

lemma writable_same_dirs: "same_dirs f g \<Longrightarrow> writable f base e = writable g base e"
  unfolding writable_iff using open_w_same_dirs_iff by blast

lemma entry_effects_same_dirs:
  assumes "same_dirs f g"
  shows "entry_effects f base e = entry_effects g base e"
proof (cases "open_w f (join base (fst e))")
  case (Inr t)
  with open_w_same_dirs[OF assms this] show ?thesis by (simp add: entry_effects_def)
next
  case (Inl err)
  have "\<exists>err'. open_w g (join base (fst e)) = Inl err'"
  proof (cases "open_w g (join base (fst e))")
    case (Inr t)
    from open_w_same_dirs[OF same_dirs_sym[OF assms] this] Inl show ?thesis by simp
  qed simp
  with Inl show ?thesis by (auto simp: entry_effects_def)
qed

lemma write_entry_writable:
  assumes "writable (fs s) base e"
  shows "\<exists>t. open_w (fs s) (join base (fst e)) = Inr t \<and>
     write_entry base e s =
       Finished \<lparr>fs = (fs s)(t \<mapsto> File (payload_of (snd e))),
                 trace = trace s @ entry_effects (fs s) base e\<rparr>"
proof -
  from assms obtain content t where c: "decode_content (snd e) = Inr content"
    and t: "open_w (fs s) (join base (fst e)) = Inr t"
    unfolding writable_iff by blast
  note p = decode_content_payload[OF c]
  have "write_text (join base (fst e)) content s =
      Finished \<lparr>fs = (fs s)(t \<mapsto> File (payload_of (snd e))),
                trace = trace s @ [Opened t, Wrote t (payload_of (snd e))]\<rparr>"
    by (simp add: write_text_def t p(1))
  then have "write_entry base e s =
      Finished \<lparr>fs = (fs s)(t \<mapsto> File (payload_of (snd e))),
        trace = trace s @ [Opened t, Wrote t (payload_of (snd e)), Printed (entry_line e)]\<rparr>"
    using c p(3) by (cases e) (simp add: write_entry_def print_def entry_line_def)
  with t show ?thesis by (simp add: entry_effects_def)
qed

lemma write_entry_not_writable:
  assumes "\<not> writable (fs s) base e"
  shows "\<exists>err. write_entry base e s = Raised err s \<and>
     (\<forall>err0. decode_content (snd e) = Inl err0 \<longrightarrow> err = err0)"
proof (cases "decode_content (snd e)")
  case (Inl err0)
  then show ?thesis by (cases e) (simp add: write_entry_def)
next
  case (Inr content)
  with assms obtain err where "open_w (fs s) (join base (fst e)) = Inl err"
    unfolding writable_iff by (cases "open_w (fs s) (join base (fst e))") auto
  with Inr show ?thesis by (cases e) (simp add: write_entry_def write_text_def)
qed

lemma write_files_append:
  "write_files base (xs @ ys) s = and_then (write_files base xs s) (write_files base ys)"
proof (induction xs arbitrary: s)
  case Nil
  show ?case by simp
next
  case (Cons x xs)
  show ?case by (cases "write_entry base x s") (simp_all add: Cons.IH)
qed

lemma write_files_writable:
  "list_all (writable (fs s) base) es \<Longrightarrow>
     \<exists>s'. write_files base es s = Finished s' \<and> grown (fs s) (fs s') \<and>
          trace s' = trace s @ concat (map (entry_effects (fs s) base) es)"
proof (induction es arbitrary: s)
  case Nil
  show ?case by (simp add: grown_refl)
next
  case (Cons e es)
  from Cons.prems have w: "writable (fs s) base e" and ws: "list_all (writable (fs s) base) es"
    by simp_all
  from write_entry_writable[OF w] obtain t where t: "open_w (fs s) (join base (fst e)) = Inr t"
    and we: "write_entry base e s =
       Finished \<lparr>fs = (fs s)(t \<mapsto> File (payload_of (snd e))),
                 trace = trace s @ entry_effects (fs s) base e\<rparr>" by blast
  define s1 where "s1 = \<lparr>fs = (fs s)(t \<mapsto> File (payload_of (snd e))),
                 trace = trace s @ entry_effects (fs s) base e\<rparr>"
  have g1: "grown (fs s) (fs s1)"
    unfolding s1_def using open_w_not_dir[OF t] by (simp add: grown_write)
  then have sd: "same_dirs (fs s) (fs s1)" by (simp add: grown_def)
  have "list_all (writable (fs s1) base) es"
    using ws writable_same_dirs[OF sd] by (simp add: list_all_iff)
  from Cons.IH[OF this] obtain s' where s': "write_files base es s1 = Finished s'"
    "grown (fs s1) (fs s')"
    "trace s' = trace s1 @ concat (map (entry_effects (fs s1) base) es)" by blast
  have "entry_effects (fs s1) base = entry_effects (fs s) base"
    using entry_effects_same_dirs[OF sd] by auto
  with s'(3) have "trace s' = trace s1 @ concat (map (entry_effects (fs s) base) es)"
    by simp
  then have "trace s' = trace s @ concat (map (entry_effects (fs s) base) (e # es))"
    by (simp add: s1_def)
  moreover have "write_files base (e # es) s = Finished s'"
    using we s'(1) by (simp add: s1_def)
  moreover have "grown (fs s) (fs s')" by (rule grown_trans[OF g1 s'(2)])
  ultimately show ?case by blast
qed

lemma write_files_finished:
  "write_files base es s = Finished s' \<Longrightarrow> list_all (writable (fs s) base) es"
proof (induction es arbitrary: s)
  case Nil
  show ?case by simp
next
  case (Cons e es)
  have w: "writable (fs s) base e"
  proof (rule ccontr)
    assume "\<not> writable (fs s) base e"
    from write_entry_not_writable[OF this] Cons.prems show False by auto
  qed
  from write_entry_writable[OF w] obtain t where t: "open_w (fs s) (join base (fst e)) = Inr t"
    and we: "write_entry base e s =
       Finished \<lparr>fs = (fs s)(t \<mapsto> File (payload_of (snd e))),
                 trace = trace s @ entry_effects (fs s) base e\<rparr>" by blast
  define s1 where "s1 = \<lparr>fs = (fs s)(t \<mapsto> File (payload_of (snd e))),
                 trace = trace s @ entry_effects (fs s) base e\<rparr>"
  have sd: "same_dirs (fs s) (fs s1)"
    unfolding s1_def using open_w_not_dir[OF t] by (simp add: same_dirs_write)
  from Cons.prems we have "write_files base es s1 = Finished s'" by (simp add: s1_def)
  from Cons.IH[OF this] have "list_all (writable (fs s) base) es"
    using writable_same_dirs[OF sd] by (simp add: list_all_iff)
  with w show ?case by simp
qed

lemma write_files_abort:
  assumes "list_all (writable (fs s) base) pre" "\<not> writable (fs s) base e"
  shows "\<exists>s1 err. write_files base pre s = Finished s1 \<and>
     write_files base (pre @ e # post) s = Raised err s1 \<and>
     (\<forall>err0. decode_content (snd e) = Inl err0 \<longrightarrow> err = err0)"
proof -
  from write_files_writable[OF assms(1)] obtain s1 where s1: "write_files base pre s = Finished s1"
    "grown (fs s) (fs s1)" by blast
  then have "same_dirs (fs s) (fs s1)" by (simp add: grown_def)
  with assms(2) have "\<not> writable (fs s1) base e" using writable_same_dirs by blast
  from write_entry_not_writable[OF this] obtain err where
    "write_entry base e s1 = Raised err s1"
    "\<forall>err0. decode_content (snd e) = Inl err0 \<longrightarrow> err = err0" by blast
  then show ?thesis using s1(1) by (auto simp: write_files_append)
qed

lemma write_files_frame:
  "write_files base es s = Finished s' \<Longrightarrow>
   \<forall>e \<in> set es. open_w (fs s) (join base (fst e)) \<noteq> Inr t \<Longrightarrow> fs s' t = fs s t"
proof (induction es arbitrary: s)
  case Nil
  then show ?case by simp
next
  case (Cons e es)
  from write_files_finished[OF Cons.prems(1)] have w: "writable (fs s) base e" by simp
  from write_entry_writable[OF w] obtain u where u: "open_w (fs s) (join base (fst e)) = Inr u"
    and we: "write_entry base e s =
       Finished \<lparr>fs = (fs s)(u \<mapsto> File (payload_of (snd e))),
                 trace = trace s @ entry_effects (fs s) base e\<rparr>" by blast
  define s1 where "s1 = \<lparr>fs = (fs s)(u \<mapsto> File (payload_of (snd e))),
                 trace = trace s @ entry_effects (fs s) base e\<rparr>"
  have sd: "same_dirs (fs s) (fs s1)"
    unfolding s1_def using open_w_not_dir[OF u] by (simp add: same_dirs_write)
  from Cons.prems(1) we have r: "write_files base es s1 = Finished s'" by (simp add: s1_def)
  have "\<forall>e \<in> set es. open_w (fs s1) (join base (fst e)) \<noteq> Inr t"
    using Cons.prems(2) open_w_same_dirs_iff[OF sd] by simp
  from Cons.IH[OF r this] have "fs s' t = fs s1 t" .
  moreover have "u \<noteq> t" using Cons.prems(2) u by auto
  ultimately show ?case by (simp add: s1_def)
qed

lemma write_files_last:
  assumes "write_files base (pre @ e # post) s = Finished s'"
    and "open_w (fs s) (join base (fst e)) = Inr t"
    and "\<forall>e' \<in> set post. open_w (fs s) (join base (fst e')) \<noteq> Inr t"
  shows "fs s' t = Some (File (payload_of (snd e)))"
proof -
  from assms(1) obtain s1 where s1: "write_files base pre s = Finished s1"
    and r1: "write_files base (e # post) s1 = Finished s'"
    by (cases "write_files base pre s") (auto simp: write_files_append)
  from write_files_writable[OF write_files_finished[OF s1]] s1
  have sd1: "same_dirs (fs s) (fs s1)" by (auto simp: grown_def)
  have t1: "open_w (fs s1) (join base (fst e)) = Inr t"
    by (rule open_w_same_dirs[OF sd1 assms(2)])
  from write_files_finished[OF r1] have w: "writable (fs s1) base e" by simp
  from write_entry_writable[OF w] t1 have we: "write_entry base e s1 =
       Finished \<lparr>fs = (fs s1)(t \<mapsto> File (payload_of (snd e))),
                 trace = trace s1 @ entry_effects (fs s1) base e\<rparr>" by auto
  define s2 where "s2 = \<lparr>fs = (fs s1)(t \<mapsto> File (payload_of (snd e))),
                 trace = trace s1 @ entry_effects (fs s1) base e\<rparr>"
  have sd2: "same_dirs (fs s1) (fs s2)"
    unfolding s2_def using open_w_not_dir[OF t1] by (simp add: same_dirs_write)
  from r1 we have r2: "write_files base post s2 = Finished s'" by (simp add: s2_def)
  have "\<forall>e' \<in> set post. open_w (fs s2) (join base (fst e')) \<noteq> Inr t"
    using assms(3) open_w_same_dirs_iff[OF same_dirs_trans[OF sd1 sd2]] by simp
  from write_files_frame[OF r2 this] show ?thesis by (simp add: s2_def)
qed

section \<open>Properties of the whole run\<close>

lemma run_load_failed:
  "load_manifest loads (dirname file) f = Inl e \<Longrightarrow>
     run loads file f = Raised e \<lparr>fs = f, trace = []\<rparr>"
  by (simp add: run_def Let_def)

lemma run_items_failed:
  "load_manifest loads (dirname file) f = Inr j \<Longrightarrow> items j = Inl e \<Longrightarrow>
     run loads file f = Raised e \<lparr>fs = f, trace = []\<rparr>"
  by (simp add: run_def Let_def)

lemma run_loaded:
  "load_manifest loads (dirname file) f = Inr (JObject M) \<Longrightarrow>
     run loads file f =
       and_then (write_files (dirname file) M \<lparr>fs = f, trace = []\<rparr>) (\<lambda>s1.
       and_then (os_remove (join (dirname file) manifest_name) s1) (\<lambda>s2.
       and_then (os_remove (join (dirname file) script_name) s2)
         (print (lit ''Cleanup done''))))"
  by (simp add: run_def Let_def)

lemma items_Inr: "items j = Inr M \<Longrightarrow> j = JObject M"
  by (cases j) simp_all

lemma load_manifest_lookup:
  "load_manifest loads base f = Inr j \<Longrightarrow>
     \<exists>t raw. lookup_file f (join base manifest_name) = Inr (t, raw)"
  by (auto simp: load_manifest_def read_text_def split: sum.splits)

lemma load_manifest_absent:
  "lookup_file f (join base manifest_name) = Inl e \<Longrightarrow> load_manifest loads base f = Inl e"
  by (simp add: load_manifest_def read_text_def)

lemma os_remove_Finished:
  "os_remove p s = Finished s' \<Longrightarrow>
     \<exists>t raw. lookup_file (fs s) p = Inr (t, raw) \<and>
       s' = \<lparr>fs = (fs s)(t := None), trace = trace s @ [Removed t]\<rparr>"
  by (auto simp: os_remove_def split: sum.splits)

lemma os_remove_Raised: "os_remove p s = Raised e s' \<Longrightarrow> s' = s"
  by (auto simp: os_remove_def split: sum.splits)

lemma and_then_Finished:
  "and_then x k = Finished s' \<Longrightarrow> \<exists>s. x = Finished s \<and> k s = Finished s'"
  by (cases x) simp_all

lemma run_finished_D:
  assumes "run loads file f = Finished s"
  shows "\<exists>M s1 t_m raw_m t_s raw_s.
     load_manifest loads (dirname file) f = Inr (JObject M) \<and>
     write_files (dirname file) M \<lparr>fs = f, trace = []\<rparr> = Finished s1 \<and>
     lookup_file (fs s1) (join (dirname file) manifest_name) = Inr (t_m, raw_m) \<and>
     lookup_file ((fs s1)(t_m := None)) (join (dirname file) script_name) = Inr (t_s, raw_s) \<and>
     s = \<lparr>fs = (fs s1)(t_m := None, t_s := None),
          trace = trace s1 @ [Removed t_m, Removed t_s, Printed (lit ''Cleanup done'')]\<rparr>"
proof -
  from assms obtain j where j: "load_manifest loads (dirname file) f = Inr j"
    by (cases "load_manifest loads (dirname file) f") (auto simp: run_def Let_def)
  with assms obtain M where M: "items j = Inr M"
    by (cases "items j") (auto simp: run_def Let_def)
  with j have l: "load_manifest loads (dirname file) f = Inr (JObject M)"
    using items_Inr by blast
  note r = assms[unfolded run_loaded[OF l]]
  from and_then_Finished[OF r] obtain s1 where
    s1: "write_files (dirname file) M \<lparr>fs = f, trace = []\<rparr> = Finished s1" and
    r1: "and_then (os_remove (join (dirname file) manifest_name) s1) (\<lambda>s2.
       and_then (os_remove (join (dirname file) script_name) s2)
         (print (lit ''Cleanup done''))) = Finished s" by blast
  from and_then_Finished[OF r1] obtain s2 where
    s2: "os_remove (join (dirname file) manifest_name) s1 = Finished s2" and
    r2: "and_then (os_remove (join (dirname file) script_name) s2)
         (print (lit ''Cleanup done'')) = Finished s" by blast
  from and_then_Finished[OF r2] obtain s3 where
    s3: "os_remove (join (dirname file) script_name) s2 = Finished s3" and
    r3: "print (lit ''Cleanup done'') s3 = Finished s" by blast
  from os_remove_Finished[OF s2] obtain t_m raw_m where
    m: "lookup_file (fs s1) (join (dirname file) manifest_name) = Inr (t_m, raw_m)"
       "s2 = \<lparr>fs = (fs s1)(t_m := None), trace = trace s1 @ [Removed t_m]\<rparr>" by blast
  from os_remove_Finished[OF s3] obtain t_s raw_s where
    sc: "lookup_file (fs s2) (join (dirname file) script_name) = Inr (t_s, raw_s)"
       "s3 = \<lparr>fs = (fs s2)(t_s := None), trace = trace s2 @ [Removed t_s]\<rparr>" by blast
  have "s = \<lparr>fs = (fs s1)(t_m := None, t_s := None),
          trace = trace s1 @ [Removed t_m, Removed t_s, Printed (lit ''Cleanup done'')]\<rparr>"
    using r3 sc(2) m(2) by (simp add: print_def)
  moreover have "lookup_file ((fs s1)(t_m := None)) (join (dirname file) script_name) = Inr (t_s, raw_s)"
    using sc(1) m(2) by simp
  ultimately show ?thesis using l s1 m(1) by blast
qed

lemma run_loop_raised:
  "load_manifest loads (dirname file) f = Inr (JObject M) \<Longrightarrow>
   write_files (dirname file) M \<lparr>fs = f, trace = []\<rparr> = Raised e s1 \<Longrightarrow>
   run loads file f = Raised e s1"
  by (simp add: run_loaded)

lemma run_success:
  assumes l: "load_manifest loads (dirname file) f = Inr (JObject M)"
    and w: "list_all (writable f (dirname file)) M"
    and m: "lookup_file f (join (dirname file) manifest_name) = Inr (t_m, raw_m)"
    and sc: "lookup_file f (join (dirname file) script_name) = Inr (t_s, raw_s)"
    and ne: "t_m \<noteq> t_s"
  shows "\<exists>s. run loads file f = Finished s"
proof -
  let ?s0 = "\<lparr>fs = f, trace = []\<rparr>"
  from w have "list_all (writable (fs ?s0) (dirname file)) M" by simp
  from write_files_writable[OF this] obtain s1 where
    s1: "write_files (dirname file) M ?s0 = Finished s1" and g: "grown f (fs s1)" by auto
  from grown_lookup_file[OF g m] obtain raw_m' where
    m1: "lookup_file (fs s1) (join (dirname file) manifest_name) = Inr (t_m, raw_m')" by blast
  from grown_lookup_file[OF g sc] obtain raw_s' where
    sc1: "lookup_file (fs s1) (join (dirname file) script_name) = Inr (t_s, raw_s')" by blast
  let ?g = "(fs s1)(t_m := None)"
  have "fs s1 t_m \<noteq> Some Dir" using lookup_file_node[OF m1] by simp
  then have sd: "same_dirs (fs s1) ?g" by (simp add: same_dirs_remove)
  have "?g t_s = Some (File raw_s')" using lookup_file_node[OF sc1] ne by simp
  with lookup_file_same_dirs[OF sd sc1] have
    sc2: "lookup_file ?g (join (dirname file) script_name) = Inr (t_s, raw_s')" by simp
  show ?thesis
    by (simp add: run_loaded[OF l] s1 os_remove_def m1 sc2 print_def)
qed

text \<open>After a finished run.\<close>

lemma run_finished_facts:
  assumes "run loads file f = Finished s"
  shows "\<exists>M s1 t_m t_s.
    load_manifest loads (dirname file) f = Inr (JObject M) \<and>
    write_files (dirname file) M \<lparr>fs = f, trace = []\<rparr> = Finished s1 \<and>
    grown f (fs s1) \<and>
    trace s1 = concat (map (entry_effects f (dirname file)) M) \<and>
    open_w f (join (dirname file) manifest_name) = Inr t_m \<and>
    open_w f (join (dirname file) script_name) = Inr t_s \<and>
    fs s = (fs s1)(t_m := None, t_s := None) \<and>
    trace s = trace s1 @ [Removed t_m, Removed t_s, Printed (lit ''Cleanup done'')] \<and>
    same_dirs f (fs s) \<and>
    t_m \<noteq> t_s"
proof -
  from run_finished_D[OF assms] obtain M s1 t_m raw_m t_s raw_s where
    l: "load_manifest loads (dirname file) f = Inr (JObject M)" and
    s1: "write_files (dirname file) M \<lparr>fs = f, trace = []\<rparr> = Finished s1" and
    m: "lookup_file (fs s1) (join (dirname file) manifest_name) = Inr (t_m, raw_m)" and
    sc: "lookup_file ((fs s1)(t_m := None)) (join (dirname file) script_name) = Inr (t_s, raw_s)" and
    s: "s = \<lparr>fs = (fs s1)(t_m := None, t_s := None),
          trace = trace s1 @ [Removed t_m, Removed t_s, Printed (lit ''Cleanup done'')]\<rparr>"
    by blast
  from write_files_writable[OF write_files_finished[OF s1]] s1
  have g: "grown f (fs s1)" and tr: "trace s1 = concat (map (entry_effects f (dirname file)) M)"
    by auto
  then have sd1: "same_dirs f (fs s1)" by (simp add: grown_def)
  have nd1: "fs s1 t_m \<noteq> Some Dir" using lookup_file_node[OF m] by simp
  then have sd2: "same_dirs (fs s1) ((fs s1)(t_m := None))" by (simp add: same_dirs_remove)
  have nd2: "((fs s1)(t_m := None)) t_s \<noteq> Some Dir" using lookup_file_node[OF sc] by simp
  then have sd3: "same_dirs ((fs s1)(t_m := None)) ((fs s1)(t_m := None, t_s := None))"
    by (simp add: same_dirs_remove)
  have ne: "t_m \<noteq> t_s" using lookup_file_node[OF sc] by auto
  have om: "open_w f (join (dirname file) manifest_name) = Inr t_m"
    using open_w_same_dirs[OF same_dirs_sym[OF sd1] lookup_file_open_w[OF m]] .
  have os: "open_w f (join (dirname file) script_name) = Inr t_s"
    using open_w_same_dirs[OF same_dirs_sym[OF same_dirs_trans[OF sd1 sd2]] lookup_file_open_w[OF sc]] .
  have sd: "same_dirs f (fs s)"
    using same_dirs_trans[OF same_dirs_trans[OF sd1 sd2] sd3] s by simp
  have "fs s = (fs s1)(t_m := None, t_s := None)"
    "trace s = trace s1 @ [Removed t_m, Removed t_s, Printed (lit ''Cleanup done'')]"
    using s by simp_all
  with l s1 g tr om os sd ne show ?thesis by blast
qed

section \<open>Traces and the example installation\<close>

subsection \<open>Projections of traces\<close>

lemma printed_append: "printed (xs @ ys) = printed xs @ printed ys"
  by (induction xs rule: printed.induct) simp_all

lemma written_append: "written (xs @ ys) = written xs @ written ys"
  by (induction xs rule: written.induct) simp_all

lemma removed_append: "removed (xs @ ys) = removed xs @ removed ys"
  by (induction xs rule: removed.induct) simp_all

lemma opened_append: "opened (xs @ ys) = opened xs @ opened ys"
  by (induction xs rule: opened.induct) simp_all

lemma removed_entry_effects: "removed (entry_effects f base e) = []"
  by (simp add: entry_effects_def split: sum.splits)

lemma removed_loop: "removed (concat (map (entry_effects f base) es)) = []"
  by (induction es) (simp_all add: removed_append removed_entry_effects)

lemma open_w_absent: "open_w g p = Inr t \<Longrightarrow> g t = None \<Longrightarrow> lookup_file g p = Inl FileNotFoundError"
proof -
  assume a: "open_w g p = Inr t" and n: "g t = None"
  from a obtain k where k: "resolve g p = Inr (t, k)" "k \<noteq> Some Dir"
    by (auto simp: open_w_def split: sum.splits option.splits node.splits)
  from resolve_target_node[OF k(1)] k(2) n have "k = None" by auto
  with k(1) show ?thesis by (simp add: lookup_file_def)
qed

lemma open_w_present:
  "open_w g p = Inr t \<Longrightarrow> g t = Some (File raw) \<Longrightarrow> lookup_file g p = Inr (t, raw)"
proof -
  assume a: "open_w g p = Inr t" and n: "g t = Some (File raw)"
  from a obtain k where k: "resolve g p = Inr (t, k)" "k \<noteq> Some Dir"
    by (auto simp: open_w_def split: sum.splits option.splits node.splits)
  from resolve_target_node[OF k(1)] k(2) n have "k = Some (File raw)" by auto
  with k(1) show ?thesis by (simp add: lookup_file_def)
qed

subsection \<open>The installation\<close>

lemma dirname_site_file: "dirname site_file = lit ''/site''"
  by code_simp

lemma install_manifest_file:
  "lookup_file (install raw) (join (dirname site_file) manifest_name) =
     Inr ([lit ''site'', manifest_name], raw)"
  by code_simp

lemma install_script_file:
  "lookup_file (install raw) (join (dirname site_file) script_name) =
     Inr ([lit ''site'', script_name], lit ''import os, base64, json'')"
  by code_simp

lemma install_nodes_differ: "[lit ''site'', manifest_name] \<noteq> [lit ''site'', script_name]"
  by code_simp

lemma install_run_finishes:
  assumes "load_manifest loads (dirname site_file) (install raw) = Inr (JObject M)"
    and "list_all (writable (install raw) (dirname site_file)) M"
  shows "\<exists>s. run loads site_file (install raw) = Finished s"
  by (rule run_success[OF assms install_manifest_file install_script_file install_nodes_differ])

lemma load_B:
  "load_manifest (loads_as text_B manifest_B) (dirname site_file) (install text_B) = Inr manifest_B"
  by code_simp

lemma site_file_name: "site_file = join (dirname site_file) script_name"
  by code_simp

lemma writable_B:
  "list_all (writable (install text_B) (dirname site_file))
     [(lit ''a.txt'', JString (lit ''eA=='')), (lit ''b.txt'', JString (lit ''eQp6Cg==''))]"
  by code_simp

lemma run_B_finishes:
  "\<exists>s. run (loads_as text_B manifest_B) site_file (install text_B) = Finished s"
  using install_run_finishes[OF load_B[unfolded manifest_B_def] writable_B]
  by (simp add: manifest_B_def)

subsection \<open>The effects of the loop and the shape of a run\<close>

lemma writable_open_w:
  "writable f base e \<Longrightarrow> open_w f (join base (fst e)) = Inr (destination f base e)"
  by (auto simp: writable_iff destination_def)

lemma writable_decode:
  "writable f base e \<Longrightarrow> decode_content (snd e) = Inr (content_of (snd e))"
  by (auto simp: writable_iff content_of_def)

lemma entry_effects_writable:
  "writable f base e \<Longrightarrow> entry_effects f base e =
     [Opened (destination f base e), Wrote (destination f base e) (payload_of (snd e)),
      Printed (entry_line e)]"
  by (simp add: entry_effects_def writable_open_w)

lemma printed_loop:
  "list_all (writable f base) es \<Longrightarrow>
     printed (concat (map (entry_effects f base) es)) = map entry_line es"
  by (induction es) (simp_all add: printed_append entry_effects_writable)

lemma written_loop:
  "list_all (writable f base) es \<Longrightarrow>
     written (concat (map (entry_effects f base) es)) =
       map (\<lambda>e. (destination f base e, payload_of (snd e))) es"
  by (induction es) (simp_all add: written_append entry_effects_writable)

lemma opened_loop:
  "list_all (writable f base) es \<Longrightarrow>
     opened (concat (map (entry_effects f base) es)) = map (destination f base) es"
  by (induction es) (simp_all add: opened_append entry_effects_writable)

lemma written_line_not_cleanup: "written_line k n \<noteq> lit ''Cleanup done''"
  by (simp add: written_line_def lit_def)

lemma cleanup_not_in_entry_effects:
  "Printed (lit ''Cleanup done'') \<notin> set (entry_effects f base e)"
  by (auto simp: entry_effects_def entry_line_def written_line_not_cleanup
      written_line_not_cleanup[symmetric] split: sum.splits)

lemma cleanup_not_in_loop:
  "Printed (lit ''Cleanup done'') \<notin> set (concat (map (entry_effects f base) es))"
  by (induction es) (simp_all add: cleanup_not_in_entry_effects)

lemma write_entry_unwritable_error:
  assumes "decode_content (snd e) = Inr content" "open_w (fs s) (join base (fst e)) = Inl err"
  shows "write_entry base e s = Raised err s"
  using assms by (cases e) (simp add: write_entry_def write_text_def)

text \<open>The longest prefix of writable entries.\<close>

lemma list_all_takeWhile: "list_all P (takeWhile P xs)"
  by (induction xs) simp_all

lemma writable_prefix:
  "\<exists>n \<le> length M. list_all (writable f base) (take n M) \<and>
     (n < length M \<longrightarrow> \<not> writable f base (M ! n))"
proof -
  let ?n = "length (takeWhile (writable f base) M)"
  have "take ?n M = takeWhile (writable f base) M"
    by (rule takeWhile_eq_take[symmetric])
  then have "list_all (writable f base) (take ?n M)"
    using list_all_takeWhile[of "writable f base" M] by simp
  moreover have "?n < length M \<longrightarrow> \<not> writable f base (M ! ?n)"
    using nth_length_takeWhile by blast
  moreover have "?n \<le> length M" by (rule length_takeWhile_le)
  ultimately show ?thesis by blast
qed

text \<open>The shape of every run that loaded its manifest.\<close>

lemma run_shape:
  assumes l: "load_manifest loads (dirname file) f = Inr (JObject M)"
  shows "\<exists>n cs t_m t_s s1.
     n \<le> length M \<and> list_all (writable f (dirname file)) (take n M) \<and>
     (n < length M \<longrightarrow> \<not> writable f (dirname file) (M ! n)) \<and>
     write_files (dirname file) (take n M) \<lparr>fs = f, trace = []\<rparr> = Finished s1 \<and>
     trace s1 = concat (map (entry_effects f (dirname file)) (take n M)) \<and>
     trace (state_of (run loads file f)) = trace s1 @ cs \<and>
     open_w f (join (dirname file) manifest_name) = Inr t_m \<and>
     (cs = [] \<and> n < length M \<and> \<not> finished (run loads file f) \<and>
        state_of (run loads file f) = s1 \<or>
      cs = [Removed t_m] \<and> n = length M \<and> \<not> finished (run loads file f) \<or>
      cs = [Removed t_m, Removed t_s, Printed (lit ''Cleanup done'')] \<and> n = length M \<and>
        finished (run loads file f) \<and> open_w f (join (dirname file) script_name) = Inr t_s \<and>
        t_m \<noteq> t_s)"
proof -
  let ?base = "dirname file"
  let ?s0 = "\<lparr>fs = f, trace = []\<rparr>"
  from load_manifest_lookup[OF l] obtain t_m raw_m where
    m: "lookup_file f (join ?base manifest_name) = Inr (t_m, raw_m)" by blast
  note om = lookup_file_open_w[OF m]
  from writable_prefix[of M f ?base] obtain n where n: "n \<le> length M"
    "list_all (writable f ?base) (take n M)"
    "n < length M \<longrightarrow> \<not> writable f ?base (M ! n)" by blast
  from n(2) have "list_all (writable (fs ?s0) ?base) (take n M)" by simp
  from write_files_writable[OF this] obtain s1 where
    s1: "write_files ?base (take n M) ?s0 = Finished s1" and g: "grown f (fs s1)" and
    tr1: "trace s1 = concat (map (entry_effects f ?base) (take n M))" by auto
  show ?thesis
  proof (cases "n < length M")
    case True
    then have M: "M = take n M @ (M ! n) # drop (Suc n) M"
      by (simp add: id_take_nth_drop)
    from True n(3) have nw: "\<not> writable (fs ?s0) ?base (M ! n)" by simp
    from write_files_abort[OF \<open>list_all (writable (fs ?s0) ?base) (take n M)\<close> nw,
        of "drop (Suc n) M"] s1
    obtain err where "write_files ?base (take n M @ (M ! n) # drop (Suc n) M) ?s0 = Raised err s1"
      by auto
    with M have "write_files ?base M ?s0 = Raised err s1" by simp
    from run_loop_raised[OF l this] have rr: "run loads file f = Raised err s1" .
    have "n \<le> length M \<and> list_all (writable f ?base) (take n M) \<and>
     (n < length M \<longrightarrow> \<not> writable f ?base (M ! n)) \<and>
     write_files ?base (take n M) ?s0 = Finished s1 \<and>
     trace s1 = concat (map (entry_effects f ?base) (take n M)) \<and>
     trace (state_of (run loads file f)) = trace s1 @ [] \<and>
     open_w f (join ?base manifest_name) = Inr t_m \<and>
     ([] = ([]::effect list) \<and> n < length M \<and> \<not> finished (run loads file f) \<and>
        state_of (run loads file f) = s1)"
      using n s1 tr1 om True rr by simp
    then show ?thesis by blast
  next
    case False
    with n(1) have nM: "n = length M" by simp
    with s1 have s1': "write_files ?base M ?s0 = Finished s1" by simp
    from grown_lookup_file[OF g m] obtain raw_m' where
      m1: "lookup_file (fs s1) (join ?base manifest_name) = Inr (t_m, raw_m')" by blast
    let ?s2 = "\<lparr>fs = (fs s1)(t_m := None), trace = trace s1 @ [Removed t_m]\<rparr>"
    have r: "run loads file f =
        and_then (os_remove (join ?base script_name) ?s2) (print (lit ''Cleanup done''))"
      by (simp add: run_loaded[OF l] s1' os_remove_def m1)
    show ?thesis
    proof (cases "os_remove (join ?base script_name) ?s2")
      case (Raised err s')
      from os_remove_Raised[OF this] Raised r have rr: "run loads file f = Raised err ?s2"
        by simp
      have "n \<le> length M \<and> list_all (writable f ?base) (take n M) \<and>
       (n < length M \<longrightarrow> \<not> writable f ?base (M ! n)) \<and>
       write_files ?base (take n M) ?s0 = Finished s1 \<and>
       trace s1 = concat (map (entry_effects f ?base) (take n M)) \<and>
       trace (state_of (run loads file f)) = trace s1 @ [Removed t_m] \<and>
       open_w f (join ?base manifest_name) = Inr t_m \<and>
       ([Removed t_m] = [Removed t_m] \<and> n = length M \<and> \<not> finished (run loads file f))"
        using n s1 tr1 om nM rr by simp
      then show ?thesis by blast
    next
      case (Finished s3)
      with r have fin: "run loads file f = Finished (s3\<lparr>trace := trace s3 @ [Printed (lit ''Cleanup done'')]\<rparr>)"
        by (simp add: print_def)
      from os_remove_Finished[OF Finished] obtain t_s raw_s where
        s3: "s3 = \<lparr>fs = (fs ?s2)(t_s := None), trace = trace ?s2 @ [Removed t_s]\<rparr>"
        by blast
      from run_finished_facts[OF fin] obtain M' s1'' t_m' t_s' where
        "load_manifest loads ?base f = Inr (JObject M')" and
        "write_files ?base M' ?s0 = Finished s1''" and
        "grown f (fs s1'')" and
        "trace s1'' = concat (map (entry_effects f ?base) M')" and
        f1: "open_w f (join ?base manifest_name) = Inr t_m'" and
        f2: "open_w f (join ?base script_name) = Inr t_s'" and
        "fs (s3\<lparr>trace := trace s3 @ [Printed (lit ''Cleanup done'')]\<rparr>) =
            (fs s1'')(t_m' := None, t_s' := None)" and
        f3: "trace (s3\<lparr>trace := trace s3 @ [Printed (lit ''Cleanup done'')]\<rparr>) =
            trace s1'' @ [Removed t_m', Removed t_s', Printed (lit ''Cleanup done'')]" and
        "same_dirs f (fs (s3\<lparr>trace := trace s3 @ [Printed (lit ''Cleanup done'')]\<rparr>))" and
        f4: "t_m' \<noteq> t_s'"
        by (elim exE conjE)
      from f3 s3 have "t_s' = t_s" by simp
      moreover from f1 om have "t_m' = t_m" by simp
      ultimately have "open_w f (join ?base script_name) = Inr t_s" "t_m \<noteq> t_s"
        using f2 f4 by simp_all
      moreover have "trace (state_of (run loads file f)) =
          trace s1 @ [Removed t_m, Removed t_s, Printed (lit ''Cleanup done'')]"
        using fin s3 by simp
      moreover have "finished (run loads file f)" using fin by simp
      ultimately have "n \<le> length M \<and> list_all (writable f ?base) (take n M) \<and>
       (n < length M \<longrightarrow> \<not> writable f ?base (M ! n)) \<and>
       write_files ?base (take n M) ?s0 = Finished s1 \<and>
       trace s1 = concat (map (entry_effects f ?base) (take n M)) \<and>
       trace (state_of (run loads file f)) =
         trace s1 @ [Removed t_m, Removed t_s, Printed (lit ''Cleanup done'')] \<and>
       open_w f (join ?base manifest_name) = Inr t_m \<and>
       ([Removed t_m, Removed t_s, Printed (lit ''Cleanup done'')] =
          [Removed t_m, Removed t_s, Printed (lit ''Cleanup done'')] \<and> n = length M \<and>
        finished (run loads file f) \<and> open_w f (join ?base script_name) = Inr t_s \<and>
        t_m \<noteq> t_s)"
        using n s1 tr1 om nM by simp
      then show ?thesis by blast
    qed
  qed
qed

subsection \<open>Path strings that name the same node\<close>

lemma split_sep_nonempty: "split_sep p \<noteq> []"
  by (induction p) (auto split: list.splits)

lemma split_sep_append: "split_sep (a @ sep # b) = split_sep a @ split_sep b"
proof (induction a)
  case Nil
  show ?case by simp
next
  case (Cons c cs)
  show ?case
  proof (cases "c = sep")
    case True
    with Cons show ?thesis by simp
  next
    case False
    obtain x xs where x: "split_sep cs = x # xs"
      using split_sep_nonempty[of cs] by (cases "split_sep cs") auto
    with False Cons show ?thesis by simp
  qed
qed

lemma walk_append:
  "walk f cur (xs @ ys) = (case walk f cur xs of Inl e \<Rightarrow> Inl e | Inr d \<Rightarrow> walk f d ys)"
  by (induction xs arbitrary: cur) (auto split: option.splits node.splits)

lemma resolve_double_sep: "resolve f (a @ sep # sep # b) = resolve f (a @ sep # b)"
proof -
  let ?A = "split_sep a" and ?B = "split_sep b"
  have B: "?B \<noteq> []" by (rule split_sep_nonempty)
  have s1: "split_sep (a @ sep # sep # b) = ?A @ [] # ?B"
    using split_sep_append[of a "sep # b"] by simp
  have s2: "split_sep (a @ sep # b) = ?A @ ?B" by (rule split_sep_append)
  have l: "last (?A @ [] # ?B) = last (?A @ ?B)" using B by simp
  have b1: "butlast (?A @ [] # ?B) = ?A @ [] # butlast ?B" using B by (simp add: butlast_append)
  have b2: "butlast (?A @ ?B) = ?A @ butlast ?B" using B by (simp add: butlast_append)
  have w: "walk f [] (?A @ [] # butlast ?B) = walk f [] (?A @ butlast ?B)"
    by (simp add: walk_append split: sum.splits)
  have z: "(0 \<in> set (a @ sep # sep # b)) = (0 \<in> set (a @ sep # b))" by auto
  show ?thesis
    unfolding resolve_def s1 s2 l b1 b2 w z by simp
qed

lemma resolve_join_relative:
  assumes "base \<noteq> []" "fname = [] \<or> hd fname \<noteq> sep"
  shows "resolve f (base @ sep # fname) = resolve f (join base fname)"
proof -
  have n: "\<not> ((fname \<noteq> [] \<and> hd fname = sep) \<or> base = [])" using assms by blast
  show ?thesis
  proof (cases "last base = sep")
    case False
    have "join base fname = base @ sep # fname"
      unfolding join_def using n False by simp
    then show ?thesis by simp
  next
    case True
    from assms(1) have "base = butlast base @ [last base]" by simp
    with True have b: "base = butlast base @ [sep]" by simp
    have "join base fname = base @ fname"
      unfolding join_def using n True by simp
    also have "\<dots> = butlast base @ sep # fname" using b by (metis append_Cons append_Nil append_assoc)
    finally have j: "join base fname = butlast base @ sep # fname" .
    have "base @ sep # fname = butlast base @ sep # sep # fname"
      using b by (metis append_Cons append_Nil append_assoc)
    then show ?thesis unfolding j by (simp only: resolve_double_sep)
  qed
qed

lemma lookup_file_join_relative:
  assumes "base \<noteq> []" "fname = [] \<or> hd fname \<noteq> sep"
  shows "lookup_file f (base @ sep # fname) = lookup_file f (join base fname)"
  unfolding lookup_file_def by (simp only: resolve_join_relative[OF assms])

lemma dirname_absolute:
  assumes "file \<noteq> []" "hd file = sep"
  shows "dirname file \<noteq> []"
proof -
  define head where "head = rev (dropWhile (\<lambda>c. c \<noteq> sep) (rev file))"
  have d: "dirname file =
      (if head \<noteq> [] \<and> \<not> (\<forall>c \<in> set head. c = sep) then rstrip_sep head else head)"
    unfolding dirname_def head_def Let_def ..
  have "sep \<in> set (rev file)" using assms by (cases "file") auto
  then have "dropWhile (\<lambda>c. c \<noteq> sep) (rev file) \<noteq> []"
    unfolding dropWhile_eq_Nil_conv by blast
  then have h: "head \<noteq> []" unfolding head_def by simp
  show ?thesis
  proof (cases "\<forall>c \<in> set head. c = sep")
    case True
    with h d show ?thesis by simp
  next
    case False
    then have "\<not> (\<forall>c \<in> set (rev head). c = sep)" by simp
    then have "dropWhile (\<lambda>c. c = sep) (rev head) \<noteq> []"
      unfolding dropWhile_eq_Nil_conv by blast
    then have "rstrip_sep head \<noteq> []" unfolding rstrip_sep_def by simp
    with False h d show ?thesis by simp
  qed
qed

section \<open>The claims of the specification\<close>

text \<open>
  C3. Every per-file line a run prints is \<^verbatim>\<open>Written: <filename> (<count> lines)\<close> for the
  next entry of the manifest, where the count is the number of newline characters
  (code point 10) in the entry's decoded content. The lines of a run are those of a
  prefix of the manifest, followed by \<^verbatim>\<open>Cleanup done\<close> exactly when the run finishes.
\<close>

theorem printed_count_is_newline_count:
  assumes "load_manifest loads (dirname file) f = Inr (JObject M)"
  shows "\<exists>n \<le> length M.
     printed (trace (state_of (run loads file f))) =
       map (\<lambda>(fname, b64content).
              lit ''Written: '' @ fname @ lit '' ('' @
                str (length (filter (\<lambda>c. c = 10) (content_of b64content))) @ lit '' lines)'')
         (take n M) @
       (if finished (run loads file f) then [lit ''Cleanup done''] else []) \<and>
     (\<forall>(fname, b64content) \<in> set (take n M).
        decode_content b64content = Inr (content_of b64content)) \<and>
     (finished (run loads file f) \<longrightarrow> n = length M)"
proof -
  let ?base = "dirname file"
  from run_shape[OF assms] obtain n cs t_m t_s s1 where
    n: "n \<le> length M" and w: "list_all (writable f ?base) (take n M)" and
    "n < length M \<longrightarrow> \<not> writable f ?base (M ! n)" and
    "write_files ?base (take n M) \<lparr>fs = f, trace = []\<rparr> = Finished s1" and
    tr1: "trace s1 = concat (map (entry_effects f ?base) (take n M))" and
    tr: "trace (state_of (run loads file f)) = trace s1 @ cs" and
    "open_w f (join ?base manifest_name) = Inr t_m" and
    cs: "cs = [] \<and> n < length M \<and> \<not> finished (run loads file f) \<and>
        state_of (run loads file f) = s1 \<or>
      cs = [Removed t_m] \<and> n = length M \<and> \<not> finished (run loads file f) \<or>
      cs = [Removed t_m, Removed t_s, Printed (lit ''Cleanup done'')] \<and> n = length M \<and>
        finished (run loads file f) \<and> open_w f (join ?base script_name) = Inr t_s \<and>
        t_m \<noteq> t_s"
    by (elim exE conjE)
  have line: "entry_line = (\<lambda>(fname, b64content).
              lit ''Written: '' @ fname @ lit '' ('' @
                str (length (filter (\<lambda>c. c = 10) (content_of b64content))) @ lit '' lines)'')"
    by (auto simp: entry_line_def written_line_def count_def chr10_def fun_eq_iff)
  have "printed (trace s1) = map entry_line (take n M)"
    unfolding tr1 by (rule printed_loop[OF w])
  moreover have "printed cs = (if finished (run loads file f) then [lit ''Cleanup done''] else [])"
    using cs by auto
  ultimately have "printed (trace (state_of (run loads file f))) =
       map entry_line (take n M) @
       (if finished (run loads file f) then [lit ''Cleanup done''] else [])"
    unfolding tr printed_append by simp
  moreover have "\<forall>(fname, b64content) \<in> set (take n M).
        decode_content b64content = Inr (content_of b64content)"
    using w writable_decode by (fastforce simp: list_all_iff)
  moreover have "finished (run loads file f) \<longrightarrow> n = length M" using cs by auto
  ultimately show ?thesis using n unfolding line by blast
qed


lemma finished_loop_facts:
  assumes "run loads file f = Finished s"
    and "load_manifest loads (dirname file) f = Inr (JObject M)"
  shows "\<exists>s1 t_m t_s.
    write_files (dirname file) M \<lparr>fs = f, trace = []\<rparr> = Finished s1 \<and>
    list_all (writable f (dirname file)) M \<and>
    trace s1 = concat (map (entry_effects f (dirname file)) M) \<and>
    open_w f (join (dirname file) manifest_name) = Inr t_m \<and>
    open_w f (join (dirname file) script_name) = Inr t_s \<and>
    fs s = (fs s1)(t_m := None, t_s := None) \<and>
    trace s = trace s1 @ [Removed t_m, Removed t_s, Printed (lit ''Cleanup done'')] \<and>
    same_dirs f (fs s) \<and> t_m \<noteq> t_s"
proof -
  from run_finished_facts[OF assms(1)] obtain M' s1 t_m t_s where
    l: "load_manifest loads (dirname file) f = Inr (JObject M')" and
    s1: "write_files (dirname file) M' \<lparr>fs = f, trace = []\<rparr> = Finished s1" and
    g: "grown f (fs s1)" and
    tr1: "trace s1 = concat (map (entry_effects f (dirname file)) M')" and
    om: "open_w f (join (dirname file) manifest_name) = Inr t_m" and
    os: "open_w f (join (dirname file) script_name) = Inr t_s" and
    fs: "fs s = (fs s1)(t_m := None, t_s := None)" and
    tr: "trace s = trace s1 @ [Removed t_m, Removed t_s, Printed (lit ''Cleanup done'')]" and
    sd: "same_dirs f (fs s)" and ne: "t_m \<noteq> t_s"
    by (elim exE conjE)
  from l assms(2) have M: "M' = M" by simp
  from write_files_finished[OF s1] have "list_all (writable f (dirname file)) M'" by simp
  with s1 tr1 om os fs tr sd ne show ?thesis unfolding M by blast
qed

lemma finished_file:
  assumes fin: "run loads file f = Finished s"
    and l: "load_manifest loads (dirname file) f = Inr (JObject (pre @ e # post))"
  shows "\<exists>t. open_w f (join (dirname file) (fst e)) = Inr t \<and> writable f (dirname file) e \<and>
     (list_all (\<lambda>e'. open_w f (join (dirname file) (fst e')) \<noteq> Inr t) post \<longrightarrow>
      open_w f (join (dirname file) manifest_name) \<noteq> Inr t \<longrightarrow>
      open_w f (join (dirname file) script_name) \<noteq> Inr t \<longrightarrow>
      lookup_file (fs s) (join (dirname file) (fst e)) = Inr (t, payload_of (snd e)))"
proof -
  let ?base = "dirname file"
  from finished_loop_facts[OF fin l] obtain s1 t_m t_s where
    s1: "write_files ?base (pre @ e # post) \<lparr>fs = f, trace = []\<rparr> = Finished s1" and
    w: "list_all (writable f ?base) (pre @ e # post)" and
    "trace s1 = concat (map (entry_effects f ?base) (pre @ e # post))" and
    om: "open_w f (join ?base manifest_name) = Inr t_m" and
    os: "open_w f (join ?base script_name) = Inr t_s" and
    fs: "fs s = (fs s1)(t_m := None, t_s := None)" and
    "trace s = trace s1 @ [Removed t_m, Removed t_s, Printed (lit ''Cleanup done'')]" and
    sd: "same_dirs f (fs s)" and "t_m \<noteq> t_s"
    by (elim exE conjE)
  from w have we: "writable f ?base e" by simp
  let ?t = "destination f ?base e"
  note t = writable_open_w[OF we]
  have "lookup_file (fs s) (join ?base (fst e)) = Inr (?t, payload_of (snd e))"
    if a: "list_all (\<lambda>e'. open_w f (join ?base (fst e')) \<noteq> Inr ?t) post"
      and b: "open_w f (join ?base manifest_name) \<noteq> Inr ?t"
      and c: "open_w f (join ?base script_name) \<noteq> Inr ?t"
  proof -
    from a have "\<forall>e' \<in> set post. open_w (fs \<lparr>fs = f, trace = []\<rparr>) (join ?base (fst e')) \<noteq> Inr ?t"
      by (simp add: list_all_iff)
    moreover have "open_w (fs \<lparr>fs = f, trace = []\<rparr>) (join ?base (fst e)) = Inr ?t"
      using t by simp
    ultimately have "fs s1 ?t = Some (File (payload_of (snd e)))"
      using write_files_last[OF s1] by blast
    moreover have "?t \<noteq> t_m" "?t \<noteq> t_s" using b c om os by auto
    ultimately have "fs s ?t = Some (File (payload_of (snd e)))" using fs by simp
    from open_w_present[OF open_w_same_dirs[OF sd t] this] show ?thesis .
  qed
  with t we show ?thesis by blast
qed

text \<open>
  C8. A finished run handled the entries in the order of the manifest: its trace is,
  entry after entry, the opening of the entry's destination, the writing of the
  decoded bytes and the entry's line, and then the cleanup. So the lines on standard
  output and the files written are in the manifest's order.
\<close>

theorem entries_in_manifest_order:
  assumes "run loads file f = Finished s"
    and "load_manifest loads (dirname file) f = Inr (JObject M)"
  shows "\<exists>t_m t_s.
     trace s =
       concat (map (\<lambda>e. [Opened (destination f (dirname file) e),
                          Wrote (destination f (dirname file) e) (payload_of (snd e)),
                          Printed (entry_line e)]) M) @
       [Removed t_m, Removed t_s, Printed (lit ''Cleanup done'')] \<and>
     printed (trace s) = map entry_line M @ [lit ''Cleanup done''] \<and>
     written (trace s) = map (\<lambda>e. (destination f (dirname file) e, payload_of (snd e))) M \<and>
     (\<forall>e \<in> set M. open_w f (join (dirname file) (fst e)) = Inr (destination f (dirname file) e) \<and>
        utf8_decode (payload_of (snd e)) = Inr (content_of (snd e)))"
proof -
  let ?base = "dirname file"
  from finished_loop_facts[OF assms] obtain s1 t_m t_s where
    "write_files ?base M \<lparr>fs = f, trace = []\<rparr> = Finished s1" and
    w: "list_all (writable f ?base) M" and
    tr1: "trace s1 = concat (map (entry_effects f ?base) M)" and
    "open_w f (join ?base manifest_name) = Inr t_m" and
    "open_w f (join ?base script_name) = Inr t_s" and
    "fs s = (fs s1)(t_m := None, t_s := None)" and
    tr: "trace s = trace s1 @ [Removed t_m, Removed t_s, Printed (lit ''Cleanup done'')]" and
    "same_dirs f (fs s)" and "t_m \<noteq> t_s"
    by (elim exE conjE)
  have "map (entry_effects f ?base) M =
      map (\<lambda>e. [Opened (destination f ?base e), Wrote (destination f ?base e) (payload_of (snd e)),
                 Printed (entry_line e)]) M"
    using w by (simp add: list_all_iff entry_effects_writable)
  with tr tr1 have "trace s =
       concat (map (\<lambda>e. [Opened (destination f ?base e),
                          Wrote (destination f ?base e) (payload_of (snd e)),
                          Printed (entry_line e)]) M) @
       [Removed t_m, Removed t_s, Printed (lit ''Cleanup done'')]" by simp
  moreover have "printed (trace s) = map entry_line M @ [lit ''Cleanup done'']"
    by (simp add: tr tr1 printed_append printed_loop[OF w])
  moreover have "written (trace s) = map (\<lambda>e. (destination f ?base e, payload_of (snd e))) M"
    by (simp add: tr tr1 written_append written_loop[OF w])
  moreover have "\<forall>e \<in> set M. open_w f (join ?base (fst e)) = Inr (destination f ?base e) \<and>
        utf8_decode (payload_of (snd e)) = Inr (content_of (snd e))"
    using w writable_open_w decode_content_payload(2)[OF writable_decode]
    by (auto simp: list_all_iff)
  ultimately show ?thesis by blast
qed

text \<open>
  C6. The trace of every run is a part without removals and without the final line,
  followed by nothing, by the removal of the manifest alone, or by the removal of the
  manifest, the removal of the script and the line \<^verbatim>\<open>Cleanup done\<close>, in this order. When
  anything was removed, the first part holds the writes of all entries of the
  manifest, and nothing is opened or written afterwards.
\<close>

theorem cleanup_after_all_writes:
  assumes "load_manifest loads (dirname file) f = Inr (JObject M)"
  shows "\<exists>ws cs t_m t_s.
     trace (state_of (run loads file f)) = ws @ cs \<and>
     removed ws = [] \<and> Printed (lit ''Cleanup done'') \<notin> set ws \<and>
     opened cs = [] \<and> written cs = [] \<and>
     (cs = [] \<and> \<not> finished (run loads file f) \<or>
      cs = [Removed t_m] \<and> \<not> finished (run loads file f) \<or>
      cs = [Removed t_m, Removed t_s, Printed (lit ''Cleanup done'')] \<and>
        finished (run loads file f) \<and>
        open_w f (join (dirname file) script_name) = Inr t_s \<and> t_m \<noteq> t_s) \<and>
     open_w f (join (dirname file) manifest_name) = Inr t_m \<and>
     (cs \<noteq> [] \<longrightarrow>
        written ws = map (\<lambda>e. (destination f (dirname file) e, payload_of (snd e))) M)"
proof -
  let ?base = "dirname file"
  from run_shape[OF assms] obtain n cs t_m t_s s1 where
    n: "n \<le> length M" and w: "list_all (writable f ?base) (take n M)" and
    "n < length M \<longrightarrow> \<not> writable f ?base (M ! n)" and
    "write_files ?base (take n M) \<lparr>fs = f, trace = []\<rparr> = Finished s1" and
    tr1: "trace s1 = concat (map (entry_effects f ?base) (take n M))" and
    tr: "trace (state_of (run loads file f)) = trace s1 @ cs" and
    om: "open_w f (join ?base manifest_name) = Inr t_m" and
    cs: "cs = [] \<and> n < length M \<and> \<not> finished (run loads file f) \<and>
        state_of (run loads file f) = s1 \<or>
      cs = [Removed t_m] \<and> n = length M \<and> \<not> finished (run loads file f) \<or>
      cs = [Removed t_m, Removed t_s, Printed (lit ''Cleanup done'')] \<and> n = length M \<and>
        finished (run loads file f) \<and> open_w f (join ?base script_name) = Inr t_s \<and>
        t_m \<noteq> t_s"
    by (elim exE conjE)
  have a: "removed (trace s1) = []" unfolding tr1 by (rule removed_loop)
  have b: "Printed (lit ''Cleanup done'') \<notin> set (trace s1)"
    unfolding tr1 by (rule cleanup_not_in_loop)
  have c: "opened cs = []" "written cs = []" using cs by auto
  have d: "cs = [] \<and> \<not> finished (run loads file f) \<or>
      cs = [Removed t_m] \<and> \<not> finished (run loads file f) \<or>
      cs = [Removed t_m, Removed t_s, Printed (lit ''Cleanup done'')] \<and>
        finished (run loads file f) \<and>
        open_w f (join ?base script_name) = Inr t_s \<and> t_m \<noteq> t_s"
    using cs by blast
  have e: "cs \<noteq> [] \<longrightarrow>
        written (trace s1) = map (\<lambda>e. (destination f ?base e, payload_of (snd e))) M"
  proof
    assume "cs \<noteq> []"
    with cs have "n = length M" by auto
    with w tr1 show "written (trace s1) = map (\<lambda>e. (destination f ?base e, payload_of (snd e))) M"
      by (simp add: written_loop)
  qed
  from tr a b c d om e show ?thesis by blast
qed

text \<open>
  C4, as amended. When decoding the value of an entry raises (\<^verbatim>\<open>b64decode\<close> raises, or
  the bytes it returns are not UTF-8; characters outside the base64 alphabet do not
  make it raise, they are discarded) and the entries before it could be written, the
  run stops with the decoder's exception in the state right after the earlier
  entries: their files are as written, nothing is opened or written for the failing
  entry or a later one, nothing is removed, the manifest is still there, and
  \<^verbatim>\<open>Cleanup done\<close> is not printed.
\<close>

theorem decode_failure_aborts:
  assumes "load_manifest loads (dirname file) f = Inr (JObject (pre @ (fname, b64content) # post))"
    and "list_all (writable f (dirname file)) pre"
    and "decode_content b64content = Inl e"
  shows "\<exists>s1. write_files (dirname file) pre \<lparr>fs = f, trace = []\<rparr> = Finished s1 \<and>
     run loads file f = Raised e s1 \<and>
     opened (trace s1) = map (destination f (dirname file)) pre \<and>
     written (trace s1) = map (\<lambda>e. (destination f (dirname file) e, payload_of (snd e))) pre \<and>
     removed (trace s1) = [] \<and>
     Printed (lit ''Cleanup done'') \<notin> set (trace s1) \<and>
     (\<exists>t raw. lookup_file (fs s1) (join (dirname file) manifest_name) = Inr (t, raw))"
proof -
  let ?base = "dirname file"
  let ?s0 = "\<lparr>fs = f, trace = []\<rparr>"
  from assms(2) have w: "list_all (writable (fs ?s0) ?base) pre" by simp
  from assms(3) have nw: "\<not> writable (fs ?s0) ?base (fname, b64content)"
    by (simp add: writable_def)
  from write_files_abort[OF w nw, of post] assms(3) obtain s1 where
    s1: "write_files ?base pre ?s0 = Finished s1" and
    r: "write_files ?base (pre @ (fname, b64content) # post) ?s0 = Raised e s1"
    by auto
  from write_files_writable[OF w] s1 have g: "grown f (fs s1)" and
    tr1: "trace s1 = concat (map (entry_effects f ?base) pre)" by auto
  from load_manifest_lookup[OF assms(1)] obtain t raw where
    "lookup_file f (join ?base manifest_name) = Inr (t, raw)" by blast
  from grown_lookup_file[OF g this] have
    m: "\<exists>t raw. lookup_file (fs s1) (join ?base manifest_name) = Inr (t, raw)" by blast
  have "run loads file f = Raised e s1" by (rule run_loop_raised[OF assms(1) r])
  moreover have "opened (trace s1) = map (destination f ?base) pre"
    unfolding tr1 by (rule opened_loop[OF assms(2)])
  moreover have "written (trace s1) = map (\<lambda>e. (destination f ?base e, payload_of (snd e))) pre"
    unfolding tr1 by (rule written_loop[OF assms(2)])
  moreover have "removed (trace s1) = []" unfolding tr1 by (rule removed_loop)
  moreover have "Printed (lit ''Cleanup done'') \<notin> set (trace s1)"
    unfolding tr1 by (rule cleanup_not_in_loop)
  ultimately show ?thesis using s1 m by blast
qed

text \<open>
  C9. No directory is created. When a directory on the way to an entry's destination
  is missing at the start, and the entries before it could be written, the run stops
  at this entry with the exception of \<^verbatim>\<open>open\<close>, in the state right after the earlier
  entries: nothing is removed and \<^verbatim>\<open>Cleanup done\<close> is not printed.
\<close>

theorem missing_directory_aborts:
  assumes "load_manifest loads (dirname file) f = Inr (JObject (pre @ (fname, b64content) # post))"
    and "list_all (writable f (dirname file)) pre"
    and "decode_content b64content = Inr content"
    and "walk f [] (butlast (split_sep (join (dirname file) fname))) = Inl e0"
  shows "\<exists>s1 e. write_files (dirname file) pre \<lparr>fs = f, trace = []\<rparr> = Finished s1 \<and>
     run loads file f = Raised e s1 \<and>
     open_w (fs s1) (join (dirname file) fname) = Inl e \<and>
     opened (trace s1) = map (destination f (dirname file)) pre \<and>
     written (trace s1) = map (\<lambda>e. (destination f (dirname file) e, payload_of (snd e))) pre \<and>
     removed (trace s1) = [] \<and>
     Printed (lit ''Cleanup done'') \<notin> set (trace s1) \<and>
     (\<exists>t raw. lookup_file (fs s1) (join (dirname file) manifest_name) = Inr (t, raw))"
proof -
  let ?base = "dirname file"
  let ?s0 = "\<lparr>fs = f, trace = []\<rparr>"
  let ?p = "join ?base fname"
  from assms(2) have w: "list_all (writable (fs ?s0) ?base) pre" by simp
  from write_files_writable[OF w] obtain s1 where
    s1: "write_files ?base pre ?s0 = Finished s1" and g: "grown f (fs s1)" and
    tr1: "trace s1 = concat (map (entry_effects f ?base) pre)" by auto
  from g have sd: "same_dirs f (fs s1)" by (simp add: grown_def)
  have "\<exists>e'. resolve f ?p = Inl e'" using assms(4) by (simp add: resolve_def)
  then have "\<exists>e'. open_w f ?p = Inl e'" by (auto simp: open_w_def)
  then have "\<forall>t. open_w f ?p \<noteq> Inr t" by auto
  then have "\<forall>t. open_w (fs s1) ?p \<noteq> Inr t" using open_w_same_dirs_iff[OF sd] by simp
  then obtain e where e: "open_w (fs s1) ?p = Inl e"
    by (cases "open_w (fs s1) ?p") auto
  have "write_entry ?base (fname, b64content) s1 = Raised e s1"
    using write_entry_unwritable_error[of "(fname, b64content)" content s1 ?base e] assms(3) e
    by simp
  with s1 have "write_files ?base (pre @ (fname, b64content) # post) ?s0 = Raised e s1"
    by (simp add: write_files_append)
  from run_loop_raised[OF assms(1) this] have "run loads file f = Raised e s1" .
  moreover from load_manifest_lookup[OF assms(1)] obtain t raw where
    "lookup_file f (join ?base manifest_name) = Inr (t, raw)" by blast
  from grown_lookup_file[OF g this] have
    "\<exists>t raw. lookup_file (fs s1) (join ?base manifest_name) = Inr (t, raw)" by blast
  moreover have "opened (trace s1) = map (destination f ?base) pre"
    unfolding tr1 by (rule opened_loop[OF assms(2)])
  moreover have "written (trace s1) = map (\<lambda>e. (destination f ?base e, payload_of (snd e))) pre"
    unfolding tr1 by (rule written_loop[OF assms(2)])
  moreover have "removed (trace s1) = []" unfolding tr1 by (rule removed_loop)
  moreover have "Printed (lit ''Cleanup done'') \<notin> set (trace s1)"
    unfolding tr1 by (rule cleanup_not_in_loop)
  ultimately show ?thesis using s1 e by blast
qed

text \<open>
  C10. The cleanup removes the two fixed paths whatever the manifest holds. A file
  written for a key \<^verbatim>\<open>_files_data.json\<close> or \<^verbatim>\<open>_write_files.py\<close> is removed again by the
  cleanup: after a finished run there is no file at its path.
\<close>

theorem cleanup_removes_written_cleanup_keys:
  assumes "run loads file f = Finished s"
    and "load_manifest loads (dirname file) f = Inr (JObject M)"
    and "(fname, b64content) \<in> set M"
    and "fname = manifest_name \<or> fname = script_name"
  shows "\<exists>t. open_w f (join (dirname file) fname) = Inr t \<and>
     (t, payload_of b64content) \<in> set (written (trace s)) \<and>
     t \<in> set (removed (trace s)) \<and>
     fs s t = None \<and>
     lookup_file (fs s) (join (dirname file) fname) = Inl FileNotFoundError"
proof -
  let ?base = "dirname file"
  from finished_loop_facts[OF assms(1,2)] obtain s1 t_m t_s where
    "write_files ?base M \<lparr>fs = f, trace = []\<rparr> = Finished s1" and
    w: "list_all (writable f ?base) M" and
    tr1: "trace s1 = concat (map (entry_effects f ?base) M)" and
    om: "open_w f (join ?base manifest_name) = Inr t_m" and
    os: "open_w f (join ?base script_name) = Inr t_s" and
    fs: "fs s = (fs s1)(t_m := None, t_s := None)" and
    tr: "trace s = trace s1 @ [Removed t_m, Removed t_s, Printed (lit ''Cleanup done'')]" and
    sd: "same_dirs f (fs s)" and "t_m \<noteq> t_s"
    by (elim exE conjE)
  from assms(4) om os obtain t where t: "open_w f (join ?base fname) = Inr t"
    and tt: "t = t_m \<or> t = t_s" by auto
  from w assms(3) have "writable f ?base (fname, b64content)" by (simp add: list_all_iff)
  from writable_open_w[OF this] t have d: "destination f ?base (fname, b64content) = t" by simp
  have "written (trace s) = map (\<lambda>e. (destination f ?base e, payload_of (snd e))) M"
    by (simp add: tr tr1 written_append written_loop[OF w])
  with assms(3) d have "(t, payload_of b64content) \<in> set (written (trace s))" by force
  moreover have "removed (trace s) = [t_m, t_s]"
    by (simp add: tr tr1 removed_append removed_loop)
  with tt have "t \<in> set (removed (trace s))" by auto
  moreover have n: "fs s t = None" using fs tt by auto
  moreover have "lookup_file (fs s) (join ?base fname) = Inl FileNotFoundError"
    by (rule open_w_absent[OF open_w_same_dirs[OF sd t] n])
  ultimately show ?thesis using t by blast
qed

lemma finished_same_dirs: "run loads file f = Finished s \<Longrightarrow> same_dirs f (fs s)"
  using run_finished_facts by blast

lemma finished_cleanup_gone:
  assumes "run loads file f = Finished s"
  shows "lookup_file (fs s) (join (dirname file) manifest_name) = Inl FileNotFoundError"
    "lookup_file (fs s) (join (dirname file) script_name) = Inl FileNotFoundError"
proof -
  from run_finished_facts[OF assms] obtain M s1 t_m t_s where
    "load_manifest loads (dirname file) f = Inr (JObject M)" and
    "write_files (dirname file) M \<lparr>fs = f, trace = []\<rparr> = Finished s1" and
    "grown f (fs s1)" and
    "trace s1 = concat (map (entry_effects f (dirname file)) M)" and
    om: "open_w f (join (dirname file) manifest_name) = Inr t_m" and
    os: "open_w f (join (dirname file) script_name) = Inr t_s" and
    fs: "fs s = (fs s1)(t_m := None, t_s := None)" and
    "trace s = trace s1 @ [Removed t_m, Removed t_s, Printed (lit ''Cleanup done'')]" and
    sd: "same_dirs f (fs s)" and "t_m \<noteq> t_s"
    by (elim exE conjE)
  have gone: "fs s t_m = None" "fs s t_s = None" using fs by simp_all
  show "lookup_file (fs s) (join (dirname file) manifest_name) = Inl FileNotFoundError"
    by (rule open_w_absent[OF open_w_same_dirs[OF sd om] gone(1)])
  show "lookup_file (fs s) (join (dirname file) script_name) = Inl FileNotFoundError"
    by (rule open_w_absent[OF open_w_same_dirs[OF sd os] gone(2)])
qed

lemma finished_written:
  assumes "run loads file f = Finished s"
    and "load_manifest loads (dirname file) f = Inr (JObject M)"
  shows "written (trace s) =
      map (\<lambda>e. (destination f (dirname file) e, payload_of (snd e))) M"
proof -
  from finished_loop_facts[OF assms] obtain s1 t_m t_s where
    "write_files (dirname file) M \<lparr>fs = f, trace = []\<rparr> = Finished s1" and
    w: "list_all (writable f (dirname file)) M" and
    tr1: "trace s1 = concat (map (entry_effects f (dirname file)) M)" and
    "open_w f (join (dirname file) manifest_name) = Inr t_m" and
    "open_w f (join (dirname file) script_name) = Inr t_s" and
    "fs s = (fs s1)(t_m := None, t_s := None)" and
    tr: "trace s = trace s1 @ [Removed t_m, Removed t_s, Printed (lit ''Cleanup done'')]" and
    "same_dirs f (fs s)" and "t_m \<noteq> t_s"
    by (elim exE conjE)
  show ?thesis by (simp add: tr tr1 written_append written_loop[OF w])
qed

lemma payload_b64encode:
  assumes "utf8_encode T = Inr raw"
  shows "payload_of (JString (b64encode raw)) = raw"
    "decode_content (JString (b64encode raw)) = Inr T"
proof -
  have "\<forall>b \<in> set raw. b < 256" using utf8_encode_bytes[OF assms] by blast
  then have d: "b64decode (b64encode raw) = Inr raw" by (rule b64_roundtrip)
  then show "payload_of (JString (b64encode raw)) = raw" by simp
  from d utf8_encode_decode[OF assms] show "decode_content (JString (b64encode raw)) = Inr T"
    by simp
qed

text \<open>
  C1, as amended. After a finished run every value of the manifest was a base64 string
  of UTF-8 text, every entry had a destination, and the file at the path of an entry
  (\<^verbatim>\<open>os.path.join(base, fname)\<close>, which names the same node as \<^verbatim>\<open>base/fname\<close> when the
  key is relative) holds exactly the bytes the entry's value decodes to from base64,
  so that its text is the UTF-8 decoding of them, provided no later entry has the same
  destination and the destination is neither the manifest's nor the script's.
\<close>

theorem written_files_hold_decoded_content:
  assumes "run loads file f = Finished s"
    and "load_manifest loads (dirname file) f = Inr (JObject (pre @ (fname, v) # post))"
  shows "\<exists>t b64content raw content.
     v = JString b64content \<and> b64decode b64content = Inr raw \<and>
     utf8_decode raw = Inr content \<and>
     open_w f (join (dirname file) fname) = Inr t \<and>
     (list_all (\<lambda>e'. open_w f (join (dirname file) (fst e')) \<noteq> Inr t) post \<longrightarrow>
      open_w f (join (dirname file) manifest_name) \<noteq> Inr t \<longrightarrow>
      open_w f (join (dirname file) script_name) \<noteq> Inr t \<longrightarrow>
      lookup_file (fs s) (join (dirname file) fname) = Inr (t, raw) \<and>
      (file \<noteq> [] \<longrightarrow> hd file = sep \<longrightarrow> (fname \<noteq> [] \<longrightarrow> hd fname \<noteq> sep) \<longrightarrow>
         lookup_file (fs s) (dirname file @ sep # fname) = Inr (t, raw)))"
proof -
  from finished_file[OF assms] obtain t where
    t: "open_w f (join (dirname file) fname) = Inr t" and
    w: "writable f (dirname file) (fname, v)" and
    c: "list_all (\<lambda>e'. open_w f (join (dirname file) (fst e')) \<noteq> Inr t) post \<longrightarrow>
      open_w f (join (dirname file) manifest_name) \<noteq> Inr t \<longrightarrow>
      open_w f (join (dirname file) script_name) \<noteq> Inr t \<longrightarrow>
      lookup_file (fs s) (join (dirname file) fname) = Inr (t, payload_of v)"
    by auto
  from writable_decode[OF w] have d: "decode_content v = Inr (content_of v)" by simp
  then obtain b64content raw where v: "v = JString b64content" "b64decode b64content = Inr raw"
      "utf8_decode raw = Inr (content_of v)"
    by (cases v) (auto split: sum.splits)
  then have p: "payload_of v = raw" by simp
  have r: "lookup_file (fs s) (dirname file @ sep # fname) =
        lookup_file (fs s) (join (dirname file) fname)"
    if "file \<noteq> []" "hd file = sep" "fname \<noteq> [] \<longrightarrow> hd fname \<noteq> sep"
  proof -
    from that(3) have "fname = [] \<or> hd fname \<noteq> sep" by blast
    from lookup_file_join_relative[OF dirname_absolute[OF that(1,2)] this] show ?thesis .
  qed
  from c r have "list_all (\<lambda>e'. open_w f (join (dirname file) (fst e')) \<noteq> Inr t) post \<longrightarrow>
      open_w f (join (dirname file) manifest_name) \<noteq> Inr t \<longrightarrow>
      open_w f (join (dirname file) script_name) \<noteq> Inr t \<longrightarrow>
      lookup_file (fs s) (join (dirname file) fname) = Inr (t, raw) \<and>
      (file \<noteq> [] \<longrightarrow> hd file = sep \<longrightarrow> (fname \<noteq> [] \<longrightarrow> hd fname \<noteq> sep) \<longrightarrow>
         lookup_file (fs s) (dirname file @ sep # fname) = Inr (t, raw))"
    unfolding p by simp
  with t v show ?thesis by blast
qed

text \<open>
  C2, as amended. When the value of an entry is the base64 encoding of the UTF-8
  encoding of a text, a finished run decoded the value to this text and wrote exactly
  the text's UTF-8 bytes at the entry's destination; the file at the entry's path
  holds exactly these bytes after the run, provided no later entry has the same
  destination and the destination is neither the manifest's nor the script's.
\<close>

theorem base64_round_trip_through_write:
  assumes "run loads file f = Finished s"
    and "load_manifest loads (dirname file) f =
           Inr (JObject (pre @ (fname, JString (b64encode raw)) # post))"
    and "utf8_encode T = Inr raw"
  shows "decode_content (JString (b64encode raw)) = Inr T \<and>
     (\<exists>t. open_w f (join (dirname file) fname) = Inr t \<and>
        (t, raw) \<in> set (written (trace s)) \<and>
        (list_all (\<lambda>e'. open_w f (join (dirname file) (fst e')) \<noteq> Inr t) post \<longrightarrow>
         open_w f (join (dirname file) manifest_name) \<noteq> Inr t \<longrightarrow>
         open_w f (join (dirname file) script_name) \<noteq> Inr t \<longrightarrow>
         lookup_file (fs s) (join (dirname file) fname) = Inr (t, raw)))"
proof -
  let ?e = "(fname, JString (b64encode raw))"
  note p = payload_b64encode[OF assms(3)]
  from finished_file[OF assms(1,2)] obtain t where
    t: "open_w f (join (dirname file) fname) = Inr t" and
    w: "writable f (dirname file) ?e" and
    c: "list_all (\<lambda>e'. open_w f (join (dirname file) (fst e')) \<noteq> Inr t) post \<longrightarrow>
      open_w f (join (dirname file) manifest_name) \<noteq> Inr t \<longrightarrow>
      open_w f (join (dirname file) script_name) \<noteq> Inr t \<longrightarrow>
      lookup_file (fs s) (join (dirname file) fname) = Inr (t, payload_of (snd ?e))"
    by auto
  have "written (trace s) =
      map (\<lambda>e. (destination f (dirname file) e, payload_of (snd e))) (pre @ ?e # post)"
    by (rule finished_written[OF assms(1,2)])
  moreover have "destination f (dirname file) ?e = t" using writable_open_w[OF w] t by simp
  ultimately have "(t, raw) \<in> set (written (trace s))" using p(1) by force
  with t c p show ?thesis by auto
qed

subsection \<open>The example runs\<close>

lemma load_L:
  "load_manifest (loads_as text_L manifest_L) (dirname site_file) (install text_L) =
     Inr (JObject [(lit ''one.txt'', JString (lit ''YQpiCmM='')),
                   (lit ''two.txt'', JString (lit ''YQpiCmMK''))])"
  by code_simp

lemma writable_L:
  "list_all (writable (install text_L) (dirname site_file))
     [(lit ''one.txt'', JString (lit ''YQpiCmM='')), (lit ''two.txt'', JString (lit ''YQpiCmMK''))]"
  by code_simp

lemma run_L_finishes:
  "\<exists>s. run (loads_as text_L manifest_L) site_file (install text_L) = Finished s"
  by (rule install_run_finishes[OF load_L writable_L])

lemma load_B':
  "load_manifest (loads_as text_B manifest_B) (dirname site_file) (install text_B) =
     Inr (JObject ([] @ (lit ''a.txt'', JString (lit ''eA=='')) #
                   [(lit ''b.txt'', JString (lit ''eQp6Cg==''))]))"
  using load_B by (simp add: manifest_B_def)

lemma load_D:
  "load_manifest (loads_as text_D manifest_D) (dirname site_file) (install text_D) =
     Inr (JObject ([(lit ''a.txt'', JString (lit ''eA==''))] @
                   (lit ''bad.txt'', JString (lit ''eA='')) #
                   [(lit ''c.txt'', JString (lit ''eQ==''))]))"
  by code_simp

lemma load_S:
  "load_manifest (loads_as text_S manifest_S) (dirname site_file) (install text_S) =
     Inr (JObject ([(lit ''a.txt'', JString (lit ''eA==''))] @
                   (lit ''sub/x.txt'', JString (lit ''eQ=='')) # []))"
  by code_simp

lemma load_K:
  "load_manifest (loads_as text_K manifest_K) (dirname site_file) (install text_K) =
     Inr (JObject [(manifest_name, JString (lit ''eA==''))])"
  by code_simp

lemma writable_K:
  "list_all (writable (install text_K) (dirname site_file)) [(manifest_name, JString (lit ''eA==''))]"
  by code_simp

lemma run_K_finishes:
  "\<exists>s. run (loads_as text_K manifest_K) site_file (install text_K) = Finished s"
  by (rule install_run_finishes[OF load_K writable_K])

lemma load_W:
  "load_manifest (loads_as text_W manifest_W) (dirname site_file) (install text_W) =
     Inr (JObject [(lit ''_write_files.py'', JString (lit ''eA==''))])"
  by code_simp

lemma writable_W:
  "list_all (writable (install text_W) (dirname site_file))
     [(lit ''_write_files.py'', JString (lit ''eA==''))]"
  by code_simp

lemma run_W_finishes:
  "\<exists>s. run (loads_as text_W manifest_W) site_file (install text_W) = Finished s"
  by (rule install_run_finishes[OF load_W writable_W])

lemma load_A:
  "load_manifest (loads_as text_A manifest_A) (dirname site_file) (install text_A) =
     Inr (JObject ([(lit ''a.txt'', JString (lit ''eA==''))] @
                   (lit ''./a.txt'', JString (lit ''eQ=='')) # []))"
  by code_simp

lemma writable_A:
  "list_all (writable (install text_A) (dirname site_file))
     ([(lit ''a.txt'', JString (lit ''eA==''))] @ (lit ''./a.txt'', JString (lit ''eQ=='')) # [])"
  by code_simp

lemma run_A_finishes:
  "\<exists>s. run (loads_as text_A manifest_A) site_file (install text_A) = Finished s"
  by (rule install_run_finishes[OF load_A writable_A])

lemma writable_a:
  "list_all (writable (install raw) (dirname site_file)) [(lit ''a.txt'', JString (lit ''eA==''))]"
  by code_simp

lemma open_a: "open_w (install raw) (join (dirname site_file) (lit ''a.txt'')) =
    Inr [lit ''site'', lit ''a.txt'']"
  by code_simp

lemma open_b: "open_w (install raw) (join (dirname site_file) (lit ''b.txt'')) =
    Inr [lit ''site'', lit ''b.txt'']"
  by code_simp

lemma open_manifest: "open_w (install raw) (join (dirname site_file) manifest_name) =
    Inr [lit ''site'', manifest_name]"
  by (rule lookup_file_open_w[OF install_manifest_file])

lemma open_script: "open_w (install raw) (join (dirname site_file) script_name) =
    Inr [lit ''site'', script_name]"
  by (rule lookup_file_open_w[OF install_script_file])

lemma nodes_differ:
  "[lit ''site'', lit ''a.txt''] \<noteq> [lit ''site'', lit ''b.txt'']"
  "[lit ''site'', manifest_name] \<noteq> [lit ''site'', lit ''a.txt'']"
  "[lit ''site'', script_name] \<noteq> [lit ''site'', lit ''a.txt'']"
  "[lit ''site'', manifest_name] \<noteq> [lit ''site'', lit ''b.txt'']"
  "[lit ''site'', script_name] \<noteq> [lit ''site'', lit ''b.txt'']"
  by code_simp+

lemma site_paths:
  "join (dirname site_file) (lit ''a.txt'') = lit ''/site/a.txt''"
  "join (dirname site_file) (lit ''b.txt'') = lit ''/site/b.txt''"
  "join (dirname site_file) manifest_name = lit ''/site/_files_data.json''"
  "join (dirname site_file) script_name = lit ''/site/_write_files.py''"
  by code_simp+

lemma payloads:
  "payload_of (JString (lit ''eA=='')) = lit ''x''"
  "payload_of (JString (lit ''eQ=='')) = lit ''y''"
  "payload_of (JString (lit ''eQp6Cg=='')) = lit ''y\<newline>z\<newline>''"
  by code_simp+

theorem printed_count_is_newline_count_witness:
  "load_manifest (loads_as text_L manifest_L) (dirname site_file) (install text_L) =
     Inr (JObject [(lit ''one.txt'', JString (lit ''YQpiCmM='')),
                   (lit ''two.txt'', JString (lit ''YQpiCmMK''))]) \<and>
   content_of (JString (lit ''YQpiCmM='')) = lit ''a\<newline>b\<newline>c'' \<and>
   content_of (JString (lit ''YQpiCmMK'')) = lit ''a\<newline>b\<newline>c\<newline>'' \<and>
   printed (trace (state_of (run (loads_as text_L manifest_L) site_file (install text_L)))) =
     [lit ''Written: one.txt (2 lines)'', lit ''Written: two.txt (3 lines)'',
      lit ''Cleanup done'']"
proof -
  let ?M = "[(lit ''one.txt'', JString (lit ''YQpiCmM='')),
             (lit ''two.txt'', JString (lit ''YQpiCmMK''))]"
  let ?r = "run (loads_as text_L manifest_L) site_file (install text_L)"
  have fin: "finished ?r" using run_L_finishes by auto
  from printed_count_is_newline_count[OF load_L] obtain n where
    n: "printed (trace (state_of ?r)) =
       map (\<lambda>(fname, b64content).
              lit ''Written: '' @ fname @ lit '' ('' @
                str (length (filter (\<lambda>c. c = 10) (content_of b64content))) @ lit '' lines)'')
         (take n ?M) @
       (if finished ?r then [lit ''Cleanup done''] else [])" and
    l: "finished ?r \<longrightarrow> n = length ?M" by blast
  from l fin have "take n ?M = ?M" by simp
  moreover have "map (\<lambda>(fname, b64content).
              lit ''Written: '' @ fname @ lit '' ('' @
                str (length (filter (\<lambda>c. c = 10) (content_of b64content))) @ lit '' lines)'') ?M =
     [lit ''Written: one.txt (2 lines)'', lit ''Written: two.txt (3 lines)'']"
    by code_simp
  ultimately have "printed (trace (state_of ?r)) =
     [lit ''Written: one.txt (2 lines)'', lit ''Written: two.txt (3 lines)'',
      lit ''Cleanup done'']"
    using n fin by simp
  moreover have "content_of (JString (lit ''YQpiCmM='')) = lit ''a\<newline>b\<newline>c''"
    "content_of (JString (lit ''YQpiCmMK'')) = lit ''a\<newline>b\<newline>c\<newline>''"
    by code_simp+
  ultimately show ?thesis using load_L by blast
qed


lemma entry_lines_B:
  "map entry_line [(lit ''a.txt'', JString (lit ''eA=='')), (lit ''b.txt'', JString (lit ''eQp6Cg==''))] =
     [lit ''Written: a.txt (0 lines)'', lit ''Written: b.txt (2 lines)'']"
  by code_simp

lemma written_B:
  "map (\<lambda>e. (destination (install text_B) (dirname site_file) e, payload_of (snd e)))
     [(lit ''a.txt'', JString (lit ''eA=='')), (lit ''b.txt'', JString (lit ''eQp6Cg==''))] =
     [([lit ''site'', lit ''a.txt''], lit ''x''),
      ([lit ''site'', lit ''b.txt''], lit ''y\<newline>z\<newline>'')]"
  by code_simp

lemma load_B_list:
  "load_manifest (loads_as text_B manifest_B) (dirname site_file) (install text_B) =
     Inr (JObject [(lit ''a.txt'', JString (lit ''eA=='')), (lit ''b.txt'', JString (lit ''eQp6Cg==''))])"
  using load_B by (simp add: manifest_B_def)

lemma load_B'':
  "load_manifest (loads_as text_B manifest_B) (dirname site_file) (install text_B) =
     Inr (JObject ([(lit ''a.txt'', JString (lit ''eA==''))] @
                   (lit ''b.txt'', JString (lit ''eQp6Cg=='')) # []))"
  using load_B by (simp add: manifest_B_def)

lemma file_a_B:
  assumes "run (loads_as text_B manifest_B) site_file (install text_B) = Finished s"
  shows "lookup_file (fs s) (lit ''/site/a.txt'') = Inr ([lit ''site'', lit ''a.txt''], lit ''x'')"
proof -
  from finished_file[OF assms load_B'] open_a[of text_B]
  have "list_all (\<lambda>e'. open_w (install text_B) (join (dirname site_file) (fst e')) \<noteq>
            Inr [lit ''site'', lit ''a.txt'']) [(lit ''b.txt'', JString (lit ''eQp6Cg==''))] \<longrightarrow>
      open_w (install text_B) (join (dirname site_file) manifest_name) \<noteq>
            Inr [lit ''site'', lit ''a.txt''] \<longrightarrow>
      open_w (install text_B) (join (dirname site_file) script_name) \<noteq>
            Inr [lit ''site'', lit ''a.txt''] \<longrightarrow>
      lookup_file (fs s) (join (dirname site_file) (lit ''a.txt'')) =
        Inr ([lit ''site'', lit ''a.txt''], payload_of (JString (lit ''eA=='')))"
    by auto
  then show ?thesis
    using nodes_differ
    by (simp add: open_b open_manifest open_script site_paths(1) payloads del: payload_of.simps)
qed

lemma file_b_B:
  assumes "run (loads_as text_B manifest_B) site_file (install text_B) = Finished s"
  shows "lookup_file (fs s) (lit ''/site/b.txt'') =
     Inr ([lit ''site'', lit ''b.txt''], lit ''y\<newline>z\<newline>'')"
proof -
  from finished_file[OF assms load_B''] open_b[of text_B]
  have "list_all (\<lambda>e'. open_w (install text_B) (join (dirname site_file) (fst e')) \<noteq>
            Inr [lit ''site'', lit ''b.txt'']) [] \<longrightarrow>
      open_w (install text_B) (join (dirname site_file) manifest_name) \<noteq>
            Inr [lit ''site'', lit ''b.txt''] \<longrightarrow>
      open_w (install text_B) (join (dirname site_file) script_name) \<noteq>
            Inr [lit ''site'', lit ''b.txt''] \<longrightarrow>
      lookup_file (fs s) (join (dirname site_file) (lit ''b.txt'')) =
        Inr ([lit ''site'', lit ''b.txt''], payload_of (JString (lit ''eQp6Cg=='')))"
    by auto
  then show ?thesis
    using nodes_differ
    by (simp add: open_manifest open_script site_paths(2) payloads del: payload_of.simps)
qed

theorem entries_in_manifest_order_witness:
  "finished (run (loads_as text_B manifest_B) site_file (install text_B)) \<and>
   load_manifest (loads_as text_B manifest_B) (dirname site_file) (install text_B) =
     Inr (JObject [(lit ''a.txt'', JString (lit ''eA=='')), (lit ''b.txt'', JString (lit ''eQp6Cg==''))]) \<and>
   printed (trace (state_of (run (loads_as text_B manifest_B) site_file (install text_B)))) =
     [lit ''Written: a.txt (0 lines)'', lit ''Written: b.txt (2 lines)'', lit ''Cleanup done''] \<and>
   written (trace (state_of (run (loads_as text_B manifest_B) site_file (install text_B)))) =
     [([lit ''site'', lit ''a.txt''], lit ''x''),
      ([lit ''site'', lit ''b.txt''], lit ''y\<newline>z\<newline>'')] \<and>
   lookup_file (fs (state_of (run (loads_as text_B manifest_B) site_file (install text_B))))
     (lit ''/site/a.txt'') = Inr ([lit ''site'', lit ''a.txt''], lit ''x'') \<and>
   lookup_file (fs (state_of (run (loads_as text_B manifest_B) site_file (install text_B))))
     (lit ''/site/b.txt'') = Inr ([lit ''site'', lit ''b.txt''], lit ''y\<newline>z\<newline>'')"
proof -
  obtain s where s: "run (loads_as text_B manifest_B) site_file (install text_B) = Finished s"
    using run_B_finishes by blast
  from entries_in_manifest_order[OF s load_B_list]
  have "printed (trace s) =
      map entry_line [(lit ''a.txt'', JString (lit ''eA=='')), (lit ''b.txt'', JString (lit ''eQp6Cg==''))] @
      [lit ''Cleanup done'']"
    and "written (trace s) =
      map (\<lambda>e. (destination (install text_B) (dirname site_file) e, payload_of (snd e)))
        [(lit ''a.txt'', JString (lit ''eA=='')), (lit ''b.txt'', JString (lit ''eQp6Cg==''))]"
    by blast+
  then have "printed (trace s) =
     [lit ''Written: a.txt (0 lines)'', lit ''Written: b.txt (2 lines)'', lit ''Cleanup done'']"
    and "written (trace s) =
     [([lit ''site'', lit ''a.txt''], lit ''x''),
      ([lit ''site'', lit ''b.txt''], lit ''y\<newline>z\<newline>'')]"
    unfolding entry_lines_B written_B by simp_all
  with file_a_B[OF s] file_b_B[OF s] load_B_list show ?thesis
    unfolding s state_of.simps finished.simps by blast
qed

theorem cleanup_after_all_writes_witness:
  "load_manifest (loads_as text_B manifest_B) (dirname site_file) (install text_B) =
     Inr (JObject [(lit ''a.txt'', JString (lit ''eA=='')), (lit ''b.txt'', JString (lit ''eQp6Cg==''))]) \<and>
   (\<exists>ws. trace (state_of (run (loads_as text_B manifest_B) site_file (install text_B))) =
       ws @ [Removed [lit ''site'', manifest_name], Removed [lit ''site'', script_name],
             Printed (lit ''Cleanup done'')] \<and>
     removed ws = [] \<and> Printed (lit ''Cleanup done'') \<notin> set ws \<and>
     written ws = [([lit ''site'', lit ''a.txt''], lit ''x''),
                   ([lit ''site'', lit ''b.txt''], lit ''y\<newline>z\<newline>'')])"
proof -
  let ?r = "run (loads_as text_B manifest_B) site_file (install text_B)"
  let ?M = "[(lit ''a.txt'', JString (lit ''eA=='')), (lit ''b.txt'', JString (lit ''eQp6Cg==''))]"
  have fin: "finished ?r" using run_B_finishes by auto
  from cleanup_after_all_writes[OF load_B_list] obtain ws cs t_m t_s where
    tr: "trace (state_of ?r) = ws @ cs" and
    a: "removed ws = []" "Printed (lit ''Cleanup done'') \<notin> set ws" and
    cs: "cs = [] \<and> \<not> finished ?r \<or> cs = [Removed t_m] \<and> \<not> finished ?r \<or>
      cs = [Removed t_m, Removed t_s, Printed (lit ''Cleanup done'')] \<and> finished ?r \<and>
        open_w (install text_B) (join (dirname site_file) script_name) = Inr t_s \<and> t_m \<noteq> t_s" and
    om: "open_w (install text_B) (join (dirname site_file) manifest_name) = Inr t_m" and
    w: "cs \<noteq> [] \<longrightarrow> written ws =
        map (\<lambda>e. (destination (install text_B) (dirname site_file) e, payload_of (snd e))) ?M"
    by blast
  from cs fin have c: "cs = [Removed t_m, Removed t_s, Printed (lit ''Cleanup done'')]"
    and os: "open_w (install text_B) (join (dirname site_file) script_name) = Inr t_s"
    by auto
  from om open_manifest[of text_B] have tm: "t_m = [lit ''site'', manifest_name]" by simp
  from os open_script[of text_B] have ts: "t_s = [lit ''site'', script_name]" by simp
  from w c have "written ws = [([lit ''site'', lit ''a.txt''], lit ''x''),
                   ([lit ''site'', lit ''b.txt''], lit ''y\<newline>z\<newline>'')]"
    unfolding written_B by simp
  with tr a c tm ts load_B_list show ?thesis by blast
qed

lemma decode_bad: "decode_content (JString (lit ''eA='')) = Inl BinasciiError"
  by code_simp

lemma written_a:
  "map (\<lambda>e. (destination (install raw) (dirname site_file) e, payload_of (snd e)))
     [(lit ''a.txt'', JString (lit ''eA==''))] = [([lit ''site'', lit ''a.txt''], lit ''x'')]"
  by code_simp

theorem decode_failure_aborts_witness:
  "load_manifest (loads_as text_D manifest_D) (dirname site_file) (install text_D) =
     Inr (JObject ([(lit ''a.txt'', JString (lit ''eA==''))] @
                   (lit ''bad.txt'', JString (lit ''eA='')) #
                   [(lit ''c.txt'', JString (lit ''eQ==''))])) \<and>
   list_all (writable (install text_D) (dirname site_file)) [(lit ''a.txt'', JString (lit ''eA==''))] \<and>
   decode_content (JString (lit ''eA='')) = Inl BinasciiError \<and>
   run (loads_as text_D manifest_D) site_file (install text_D) =
     Raised BinasciiError (state_of (run (loads_as text_D manifest_D) site_file (install text_D))) \<and>
   written (trace (state_of (run (loads_as text_D manifest_D) site_file (install text_D)))) =
     [([lit ''site'', lit ''a.txt''], lit ''x'')] \<and>
   removed (trace (state_of (run (loads_as text_D manifest_D) site_file (install text_D)))) = [] \<and>
   Printed (lit ''Cleanup done'') \<notin>
     set (trace (state_of (run (loads_as text_D manifest_D) site_file (install text_D))))"
proof -
  from decode_failure_aborts[OF load_D writable_a decode_bad] obtain s1 where
    r: "run (loads_as text_D manifest_D) site_file (install text_D) = Raised BinasciiError s1" and
    w: "written (trace s1) =
      map (\<lambda>e. (destination (install text_D) (dirname site_file) e, payload_of (snd e)))
        [(lit ''a.txt'', JString (lit ''eA==''))]" and
    x: "removed (trace s1) = []" "Printed (lit ''Cleanup done'') \<notin> set (trace s1)"
    by blast
  from w have "written (trace s1) = [([lit ''site'', lit ''a.txt''], lit ''x'')]"
    unfolding written_a .
  with x load_D writable_a decode_bad show ?thesis
    unfolding r state_of.simps by blast
qed

lemma decode_y: "decode_content (JString (lit ''eQ=='')) = Inr (lit ''y'')"
  by code_simp

lemma walk_sub:
  "walk (install text_S) [] (butlast (split_sep (join (dirname site_file) (lit ''sub/x.txt'')))) =
     Inl FileNotFoundError"
  by code_simp

theorem missing_directory_aborts_witness:
  "load_manifest (loads_as text_S manifest_S) (dirname site_file) (install text_S) =
     Inr (JObject ([(lit ''a.txt'', JString (lit ''eA==''))] @
                   (lit ''sub/x.txt'', JString (lit ''eQ=='')) # [])) \<and>
   list_all (writable (install text_S) (dirname site_file)) [(lit ''a.txt'', JString (lit ''eA==''))] \<and>
   decode_content (JString (lit ''eQ=='')) = Inr (lit ''y'') \<and>
   walk (install text_S) [] (butlast (split_sep (join (dirname site_file) (lit ''sub/x.txt'')))) =
     Inl FileNotFoundError \<and>
   \<not> finished (run (loads_as text_S manifest_S) site_file (install text_S)) \<and>
   written (trace (state_of (run (loads_as text_S manifest_S) site_file (install text_S)))) =
     [([lit ''site'', lit ''a.txt''], lit ''x'')] \<and>
   removed (trace (state_of (run (loads_as text_S manifest_S) site_file (install text_S)))) = [] \<and>
   Printed (lit ''Cleanup done'') \<notin>
     set (trace (state_of (run (loads_as text_S manifest_S) site_file (install text_S))))"
proof -
  from missing_directory_aborts[OF load_S writable_a decode_y walk_sub] obtain s1 e where
    r: "run (loads_as text_S manifest_S) site_file (install text_S) = Raised e s1" and
    w: "written (trace s1) =
      map (\<lambda>e. (destination (install text_S) (dirname site_file) e, payload_of (snd e)))
        [(lit ''a.txt'', JString (lit ''eA==''))]" and
    x: "removed (trace s1) = []" "Printed (lit ''Cleanup done'') \<notin> set (trace s1)"
    by blast
  from w have "written (trace s1) = [([lit ''site'', lit ''a.txt''], lit ''x'')]"
    unfolding written_a .
  with x load_S writable_a decode_y walk_sub show ?thesis
    unfolding r state_of.simps finished.simps by blast
qed

theorem cleanup_removes_written_cleanup_keys_witness:
  "finished (run (loads_as text_K manifest_K) site_file (install text_K)) \<and>
   load_manifest (loads_as text_K manifest_K) (dirname site_file) (install text_K) =
     Inr (JObject [(manifest_name, JString (lit ''eA==''))]) \<and>
   ([lit ''site'', manifest_name], lit ''x'') \<in>
     set (written (trace (state_of (run (loads_as text_K manifest_K) site_file (install text_K))))) \<and>
   [lit ''site'', manifest_name] \<in>
     set (removed (trace (state_of (run (loads_as text_K manifest_K) site_file (install text_K))))) \<and>
   lookup_file (fs (state_of (run (loads_as text_K manifest_K) site_file (install text_K))))
     (lit ''/site/_files_data.json'') = Inl FileNotFoundError"
proof -
  obtain s where s: "run (loads_as text_K manifest_K) site_file (install text_K) = Finished s"
    using run_K_finishes by blast
  have "(manifest_name, JString (lit ''eA=='')) \<in> set [(manifest_name, JString (lit ''eA==''))]"
    by simp
  from cleanup_removes_written_cleanup_keys[OF s load_K this] obtain t where
    t: "open_w (install text_K) (join (dirname site_file) manifest_name) = Inr t" and
    x: "(t, payload_of (JString (lit ''eA==''))) \<in> set (written (trace s))"
       "t \<in> set (removed (trace s))"
       "lookup_file (fs s) (join (dirname site_file) manifest_name) = Inl FileNotFoundError"
    by blast
  from t open_manifest[of text_K] have "t = [lit ''site'', manifest_name]" by simp
  with x load_K show ?thesis
    unfolding s state_of.simps finished.simps site_paths(3) payloads by blast
qed

lemma decode_x: "b64decode (lit ''eA=='') = Inr (lit ''x'')"
  by code_simp

lemma site_file_absolute: "site_file \<noteq> []" "hd site_file = sep"
  by code_simp+

lemma a_txt_relative: "lit ''a.txt'' \<noteq> [] \<longrightarrow> hd (lit ''a.txt'') \<noteq> sep"
  by code_simp

lemma site_a_txt: "dirname site_file @ sep # lit ''a.txt'' = lit ''/site/a.txt''"
  by code_simp

theorem written_files_hold_decoded_content_witness:
  "finished (run (loads_as text_B manifest_B) site_file (install text_B)) \<and>
   load_manifest (loads_as text_B manifest_B) (dirname site_file) (install text_B) =
     Inr (JObject ([] @ (lit ''a.txt'', JString (lit ''eA=='')) #
                   [(lit ''b.txt'', JString (lit ''eQp6Cg==''))])) \<and>
   b64decode (lit ''eA=='') = Inr (lit ''x'') \<and>
   lookup_file (fs (state_of (run (loads_as text_B manifest_B) site_file (install text_B))))
     (lit ''/site/a.txt'') = Inr ([lit ''site'', lit ''a.txt''], lit ''x'')"
proof -
  obtain s where s: "run (loads_as text_B manifest_B) site_file (install text_B) = Finished s"
    using run_B_finishes by blast
  from written_files_hold_decoded_content[OF s load_B'] obtain t b64content raw content where
    v: "JString (lit ''eA=='') = JString b64content" and
    d: "b64decode b64content = Inr raw" and
    "utf8_decode raw = Inr content" and
    t: "open_w (install text_B) (join (dirname site_file) (lit ''a.txt'')) = Inr t" and
    c: "list_all (\<lambda>e'. open_w (install text_B) (join (dirname site_file) (fst e')) \<noteq> Inr t)
          [(lit ''b.txt'', JString (lit ''eQp6Cg==''))] \<longrightarrow>
      open_w (install text_B) (join (dirname site_file) manifest_name) \<noteq> Inr t \<longrightarrow>
      open_w (install text_B) (join (dirname site_file) script_name) \<noteq> Inr t \<longrightarrow>
      lookup_file (fs s) (join (dirname site_file) (lit ''a.txt'')) = Inr (t, raw) \<and>
      (site_file \<noteq> [] \<longrightarrow> hd site_file = sep \<longrightarrow>
         (lit ''a.txt'' \<noteq> [] \<longrightarrow> hd (lit ''a.txt'') \<noteq> sep) \<longrightarrow>
         lookup_file (fs s) (dirname site_file @ sep # lit ''a.txt'') = Inr (t, raw))"
    by (elim exE conjE)
  from v d decode_x have raw: "raw = lit ''x''" by simp
  from t open_a[of text_B] have tt: "t = [lit ''site'', lit ''a.txt'']" by simp
  have h1: "list_all (\<lambda>e'. open_w (install text_B) (join (dirname site_file) (fst e')) \<noteq> Inr t)
          [(lit ''b.txt'', JString (lit ''eQp6Cg==''))]"
    unfolding tt using nodes_differ(1) by (simp add: open_b)
  have h2: "open_w (install text_B) (join (dirname site_file) manifest_name) \<noteq> Inr t"
    unfolding tt using nodes_differ(2) by (simp add: open_manifest)
  have h3: "open_w (install text_B) (join (dirname site_file) script_name) \<noteq> Inr t"
    unfolding tt using nodes_differ(3) by (simp add: open_script)
  note c1 = c[THEN mp, OF h1, THEN mp, OF h2, THEN mp, OF h3, THEN conjunct2]
  have "lookup_file (fs s) (dirname site_file @ sep # lit ''a.txt'') = Inr (t, raw)"
    by (rule c1[THEN mp, OF site_file_absolute(1), THEN mp, OF site_file_absolute(2),
          THEN mp, OF a_txt_relative])
  then have "lookup_file (fs s) (lit ''/site/a.txt'') = Inr ([lit ''site'', lit ''a.txt''], lit ''x'')"
    unfolding site_a_txt tt raw .
  with load_B' decode_x show ?thesis
    unfolding s state_of.simps finished.simps by blast
qed

lemma site_script_path:
  "dirname site_file @ sep # lit ''_write_files.py'' = join (dirname site_file) script_name"
  by code_simp

text \<open>
  C1 as stated fails: a manifest whose key is \<^verbatim>\<open>_write_files.py\<close> is valid and its run
  finishes, but there is no file at \<^verbatim>\<open>/site/_write_files.py\<close> afterwards.
\<close>

theorem written_files_hold_decoded_content_counterexample:
  "finished (run (loads_as text_W manifest_W) site_file (install text_W)) \<and>
   load_manifest (loads_as text_W manifest_W) (dirname site_file) (install text_W) =
     Inr (JObject [(lit ''_write_files.py'', JString (lit ''eA==''))]) \<and>
   decode_content (JString (lit ''eA=='')) = Inr (lit ''x'') \<and>
   lookup_file (fs (state_of (run (loads_as text_W manifest_W) site_file (install text_W))))
     (dirname site_file @ sep # lit ''_write_files.py'') = Inl FileNotFoundError"
proof -
  obtain s where s: "run (loads_as text_W manifest_W) site_file (install text_W) = Finished s"
    using run_W_finishes by blast
  have "decode_content (JString (lit ''eA=='')) = Inr (lit ''x'')" by code_simp
  with finished_cleanup_gone(2)[OF s] load_W show ?thesis
    unfolding s state_of.simps finished.simps site_script_path by blast
qed

lemma encode_yz:
  "utf8_encode (lit ''y\<newline>z\<newline>'') = Inr (lit ''y\<newline>z\<newline>'')"
  "b64encode (lit ''y\<newline>z\<newline>'') = lit ''eQp6Cg==''"
  by code_simp+

lemma load_B_encoded:
  "load_manifest (loads_as text_B manifest_B) (dirname site_file) (install text_B) =
     Inr (JObject ([(lit ''a.txt'', JString (lit ''eA==''))] @
                   (lit ''b.txt'', JString (b64encode (lit ''y\<newline>z\<newline>''))) # []))"
  unfolding encode_yz(2) by (rule load_B'')

theorem base64_round_trip_through_write_witness:
  "finished (run (loads_as text_B manifest_B) site_file (install text_B)) \<and>
   load_manifest (loads_as text_B manifest_B) (dirname site_file) (install text_B) =
     Inr (JObject ([(lit ''a.txt'', JString (lit ''eA==''))] @
                   (lit ''b.txt'', JString (b64encode (lit ''y\<newline>z\<newline>''))) # [])) \<and>
   utf8_encode (lit ''y\<newline>z\<newline>'') = Inr (lit ''y\<newline>z\<newline>'') \<and>
   decode_content (JString (b64encode (lit ''y\<newline>z\<newline>''))) = Inr (lit ''y\<newline>z\<newline>'') \<and>
   ([lit ''site'', lit ''b.txt''], lit ''y\<newline>z\<newline>'') \<in>
     set (written (trace (state_of (run (loads_as text_B manifest_B) site_file (install text_B))))) \<and>
   lookup_file (fs (state_of (run (loads_as text_B manifest_B) site_file (install text_B))))
     (join (dirname site_file) (lit ''b.txt'')) =
       Inr ([lit ''site'', lit ''b.txt''], lit ''y\<newline>z\<newline>'')"
proof -
  obtain s where s: "run (loads_as text_B manifest_B) site_file (install text_B) = Finished s"
    using run_B_finishes by blast
  note r = base64_round_trip_through_write[OF s load_B_encoded encode_yz(1)]
  from r have d: "decode_content (JString (b64encode (lit ''y\<newline>z\<newline>''))) = Inr (lit ''y\<newline>z\<newline>'')"
    by (rule conjunct1)
  from r[THEN conjunct2] obtain t where
    t: "open_w (install text_B) (join (dirname site_file) (lit ''b.txt'')) = Inr t" and
    w: "(t, lit ''y\<newline>z\<newline>'') \<in> set (written (trace s))" and
    c: "list_all (\<lambda>e'. open_w (install text_B) (join (dirname site_file) (fst e')) \<noteq> Inr t)
          ([]::(pystr \<times> json) list) \<longrightarrow>
      open_w (install text_B) (join (dirname site_file) manifest_name) \<noteq> Inr t \<longrightarrow>
      open_w (install text_B) (join (dirname site_file) script_name) \<noteq> Inr t \<longrightarrow>
      lookup_file (fs s) (join (dirname site_file) (lit ''b.txt'')) = Inr (t, lit ''y\<newline>z\<newline>'')"
    by (elim exE conjE)
  from t open_b[of text_B] have tt: "t = [lit ''site'', lit ''b.txt'']" by simp
  have h1: "list_all (\<lambda>e'. open_w (install text_B) (join (dirname site_file) (fst e')) \<noteq> Inr t)
      ([]::(pystr \<times> json) list)"
    by simp
  have h2: "open_w (install text_B) (join (dirname site_file) manifest_name) \<noteq> Inr t"
    unfolding tt using nodes_differ(4) by (simp add: open_manifest)
  have h3: "open_w (install text_B) (join (dirname site_file) script_name) \<noteq> Inr t"
    unfolding tt using nodes_differ(5) by (simp add: open_script)
  have "lookup_file (fs s) (join (dirname site_file) (lit ''b.txt'')) =
      Inr (t, lit ''y\<newline>z\<newline>'')"
    by (rule c[THEN mp, OF h1, THEN mp, OF h2, THEN mp, OF h3])
  with d w load_B_encoded encode_yz(1) show ?thesis
    unfolding s state_of.simps finished.simps tt by blast
qed

lemma open_dot_a:
  "open_w (install raw) (join (dirname site_file) (lit ''./a.txt'')) =
     Inr [lit ''site'', lit ''a.txt'']"
  by code_simp

lemma encode_x_y:
  "utf8_encode (lit ''x'') = Inr (lit ''x'')" "b64encode (lit ''x'') = lit ''eA==''"
  "lit ''y'' \<noteq> lit ''x''"
  by code_simp+

text \<open>
  C2 as stated fails: \<^verbatim>\<open>a.txt\<close> carries the encoding of \<^verbatim>\<open>x\<close>, the later key \<^verbatim>\<open>./a.txt\<close>
  names the same file, and after the finished run the file for \<^verbatim>\<open>a.txt\<close> holds \<^verbatim>\<open>y\<close>.
\<close>

theorem base64_round_trip_through_write_counterexample:
  "finished (run (loads_as text_A manifest_A) site_file (install text_A)) \<and>
   load_manifest (loads_as text_A manifest_A) (dirname site_file) (install text_A) =
     Inr (JObject [(lit ''a.txt'', JString (b64encode (lit ''x''))),
                   (lit ''./a.txt'', JString (lit ''eQ==''))]) \<and>
   utf8_encode (lit ''x'') = Inr (lit ''x'') \<and>
   lookup_file (fs (state_of (run (loads_as text_A manifest_A) site_file (install text_A))))
     (join (dirname site_file) (lit ''a.txt'')) = Inr ([lit ''site'', lit ''a.txt''], lit ''y'') \<and>
   lit ''y'' \<noteq> lit ''x''"
proof -
  obtain s where s: "run (loads_as text_A manifest_A) site_file (install text_A) = Finished s"
    using run_A_finishes by blast
  let ?t = "[lit ''site'', lit ''a.txt'']"
  from finished_file[OF s load_A] open_dot_a[of text_A]
  have "list_all (\<lambda>e'. open_w (install text_A) (join (dirname site_file) (fst e')) \<noteq> Inr ?t)
        ([]::(pystr \<times> json) list) \<longrightarrow>
      open_w (install text_A) (join (dirname site_file) manifest_name) \<noteq> Inr ?t \<longrightarrow>
      open_w (install text_A) (join (dirname site_file) script_name) \<noteq> Inr ?t \<longrightarrow>
      lookup_file (fs s) (join (dirname site_file) (lit ''./a.txt'')) =
        Inr (?t, payload_of (JString (lit ''eQ=='')))"
    by auto
  then have "lookup_file (fs s) (join (dirname site_file) (lit ''./a.txt'')) = Inr (?t, lit ''y'')"
    using nodes_differ(2,3)
    by (simp add: open_manifest open_script payloads del: payload_of.simps)
  from lookup_file_node[OF this] have n: "fs s ?t = Some (File (lit ''y''))" .
  have "open_w (fs s) (join (dirname site_file) (lit ''a.txt'')) = Inr ?t"
    by (rule open_w_same_dirs[OF finished_same_dirs[OF s] open_a])
  from open_w_present[OF this n]
  have "lookup_file (fs s) (join (dirname site_file) (lit ''a.txt'')) = Inr (?t, lit ''y'')" .
  moreover have "load_manifest (loads_as text_A manifest_A) (dirname site_file) (install text_A) =
     Inr (JObject [(lit ''a.txt'', JString (b64encode (lit ''x''))),
                   (lit ''./a.txt'', JString (lit ''eQ==''))])"
    unfolding encode_x_y(2) using load_A by simp
  ultimately show ?thesis using encode_x_y(1,3)
    unfolding s state_of.simps finished.simps by blast
qed

subsection \<open>Files a run does not touch, and a second invocation\<close>

lemma finished_frame:
  assumes "run loads file f = Finished s"
    and "load_manifest loads (dirname file) f = Inr (JObject M)"
    and "list_all (\<lambda>e. open_w f (join (dirname file) (fst e)) \<noteq> Inr t) M"
    and "open_w f (join (dirname file) manifest_name) \<noteq> Inr t"
    and "open_w f (join (dirname file) script_name) \<noteq> Inr t"
  shows "fs s t = f t"
proof -
  let ?base = "dirname file"
  from finished_loop_facts[OF assms(1,2)] obtain s1 t_m t_s where
    s1: "write_files ?base M \<lparr>fs = f, trace = []\<rparr> = Finished s1" and
    "list_all (writable f ?base) M" and
    "trace s1 = concat (map (entry_effects f ?base) M)" and
    om: "open_w f (join ?base manifest_name) = Inr t_m" and
    os: "open_w f (join ?base script_name) = Inr t_s" and
    fs: "fs s = (fs s1)(t_m := None, t_s := None)" and
    "trace s = trace s1 @ [Removed t_m, Removed t_s, Printed (lit ''Cleanup done'')]" and
    "same_dirs f (fs s)" and "t_m \<noteq> t_s"
    by (elim exE conjE)
  from assms(3) have "\<forall>e \<in> set M. open_w (fs \<lparr>fs = f, trace = []\<rparr>) (join ?base (fst e)) \<noteq> Inr t"
    by (simp add: list_all_iff)
  from write_files_frame[OF s1 this] have "fs s1 t = f t" by simp
  moreover have "t \<noteq> t_m" "t \<noteq> t_s" using assms(4,5) om os by auto
  ultimately show ?thesis using fs by simp
qed

lemma finished_removed:
  assumes "run loads file f = Finished s"
  shows "\<exists>t_m t_s. removed (trace s) = [t_m, t_s] \<and> t_m \<noteq> t_s \<and>
     open_w f (join (dirname file) manifest_name) = Inr t_m \<and>
     open_w f (join (dirname file) script_name) = Inr t_s \<and>
     fs s t_m = None \<and> fs s t_s = None"
proof -
  from run_finished_facts[OF assms] obtain M s1 t_m t_s where
    "load_manifest loads (dirname file) f = Inr (JObject M)" and
    "write_files (dirname file) M \<lparr>fs = f, trace = []\<rparr> = Finished s1" and
    "grown f (fs s1)" and
    tr1: "trace s1 = concat (map (entry_effects f (dirname file)) M)" and
    om: "open_w f (join (dirname file) manifest_name) = Inr t_m" and
    os: "open_w f (join (dirname file) script_name) = Inr t_s" and
    fs: "fs s = (fs s1)(t_m := None, t_s := None)" and
    tr: "trace s = trace s1 @ [Removed t_m, Removed t_s, Printed (lit ''Cleanup done'')]" and
    "same_dirs f (fs s)" and ne: "t_m \<noteq> t_s"
    by (elim exE conjE)
  have "fs s t_m = None" "fs s t_s = None" using fs by simp_all
  moreover have "removed (trace s) = [t_m, t_s]"
    by (simp add: tr tr1 removed_append removed_loop)
  ultimately show ?thesis using ne om os by blast
qed

lemma body_without_manifest:
  "lookup_file f (join (dirname file) manifest_name) = Inl FileNotFoundError \<Longrightarrow>
     run loads file f = Raised FileNotFoundError \<lparr>fs = f, trace = []\<rparr>"
  by (simp add: run_load_failed load_manifest_absent)

lemma invoke_present:
  "lookup_file f file = Inr (t, source) \<Longrightarrow> invoke loads file f = Ran (run loads file f)"
  by (simp add: invoke_def)

lemma invoke_absent:
  "lookup_file f file = Inl e \<Longrightarrow> invoke loads file f = CannotOpenScript"
  by (simp add: invoke_def)

lemma second_invocation:
  assumes "run loads file f = Finished s"
  shows "invoke loads' file (fs s) = CannotOpenScript \<or>
         invoke loads' file (fs s) = Ran (Raised FileNotFoundError \<lparr>fs = fs s, trace = []\<rparr>)"
    and "file = join (dirname file) script_name \<Longrightarrow> invoke loads' file (fs s) = CannotOpenScript"
proof -
  have b: "run loads' file (fs s) = Raised FileNotFoundError \<lparr>fs = fs s, trace = []\<rparr>"
    by (rule body_without_manifest[OF finished_cleanup_gone(1)[OF assms]])
  show "invoke loads' file (fs s) = CannotOpenScript \<or>
         invoke loads' file (fs s) = Ran (Raised FileNotFoundError \<lparr>fs = fs s, trace = []\<rparr>)"
  proof (cases "lookup_file (fs s) file")
    case (Inl e)
    then show ?thesis by (simp add: invoke_absent)
  next
    case (Inr x)
    then obtain t source where "lookup_file (fs s) file = Inr (t, source)" by (cases x) simp
    from invoke_present[OF this] b show ?thesis by simp
  qed
  assume n: "file = join (dirname file) script_name"
  have "lookup_file (fs s) (join (dirname file) script_name) = Inl FileNotFoundError"
    by (rule finished_cleanup_gone(2)[OF assms])
  with n have "lookup_file (fs s) file = Inl FileNotFoundError" by simp
  then show "invoke loads' file (fs s) = CannotOpenScript" by (rule invoke_absent)
qed

text \<open>
  C5, as amended. After a successful run there is no file at the manifest's path
  \<^verbatim>\<open>base/_files_data.json\<close> and none at \<^verbatim>\<open>base/_write_files.py\<close>: the run removed these two
  nodes, each once, the manifest first. The second is the script's own file when the
  script is installed under the name \<^verbatim>\<open>_write_files.py\<close>.
\<close>

theorem cleanup_removes_manifest_and_script:
  assumes "run loads file f = Finished s"
  shows "lookup_file (fs s) (join (dirname file) manifest_name) = Inl FileNotFoundError \<and>
         lookup_file (fs s) (join (dirname file) script_name) = Inl FileNotFoundError \<and>
         (file = join (dirname file) script_name \<longrightarrow>
            lookup_file (fs s) file = Inl FileNotFoundError) \<and>
         (\<exists>t_m t_s. removed (trace s) = [t_m, t_s] \<and> t_m \<noteq> t_s \<and>
            open_w f (join (dirname file) manifest_name) = Inr t_m \<and>
            open_w f (join (dirname file) script_name) = Inr t_s \<and>
            fs s t_m = None \<and> fs s t_s = None)"
proof -
  note g = finished_cleanup_gone[OF assms]
  have "file = join (dirname file) script_name \<longrightarrow>
            lookup_file (fs s) file = Inl FileNotFoundError"
    using g(2) by auto
  with g finished_removed[OF assms] show ?thesis by blast
qed

theorem cleanup_removes_manifest_and_script_witness:
  "finished (run (loads_as text_B manifest_B) site_file (install text_B)) \<and>
   site_file = join (dirname site_file) script_name \<and>
   lookup_file (fs (state_of (run (loads_as text_B manifest_B) site_file (install text_B))))
     (lit ''/site/_files_data.json'') = Inl FileNotFoundError \<and>
   lookup_file (fs (state_of (run (loads_as text_B manifest_B) site_file (install text_B))))
     site_file = Inl FileNotFoundError \<and>
   removed (trace (state_of (run (loads_as text_B manifest_B) site_file (install text_B)))) =
     [[lit ''site'', manifest_name], [lit ''site'', script_name]]"
proof -
  obtain s where s: "run (loads_as text_B manifest_B) site_file (install text_B) = Finished s"
    using run_B_finishes by blast
  note c = cleanup_removes_manifest_and_script[OF s]
  from c obtain t_m t_s where r: "removed (trace s) = [t_m, t_s]"
    and om: "open_w (install text_B) (join (dirname site_file) manifest_name) = Inr t_m"
    and os: "open_w (install text_B) (join (dirname site_file) script_name) = Inr t_s" by blast
  from om open_manifest[of text_B] have tm: "t_m = [lit ''site'', manifest_name]" by simp
  from os open_script[of text_B] have ts: "t_s = [lit ''site'', script_name]" by simp
  from c have "lookup_file (fs s) (join (dirname site_file) manifest_name) = Inl FileNotFoundError"
    by (rule conjunct1)
  then have a: "lookup_file (fs s) (lit ''/site/_files_data.json'') = Inl FileNotFoundError"
    unfolding site_paths(3) .
  from c have "site_file = join (dirname site_file) script_name \<longrightarrow>
            lookup_file (fs s) site_file = Inl FileNotFoundError" by blast
  with site_file_name have b: "lookup_file (fs s) site_file = Inl FileNotFoundError" by blast
  from a b r site_file_name show ?thesis
    unfolding s state_of.simps finished.simps tm ts by blast
qed

lemma other_dirname: "dirname other_file = dirname site_file"
  by code_simp

lemma other_manifest_file:
  "lookup_file (install_other raw) (join (dirname site_file) manifest_name) =
     Inr ([lit ''site'', manifest_name], raw)"
  by code_simp

lemma other_script_file:
  "lookup_file (install_other raw) (join (dirname site_file) script_name) =
     Inr ([lit ''site'', script_name], lit ''import os, base64, json'')"
  by code_simp

lemma other_own_file:
  "lookup_file (install_other raw) other_file =
     Inr ([lit ''site'', lit ''other.py''], lit ''import os, base64, json'')"
  by code_simp

lemma other_load_B:
  "load_manifest (loads_as text_B manifest_B) (dirname site_file) (install_other text_B) =
     Inr (JObject [(lit ''a.txt'', JString (lit ''eA=='')), (lit ''b.txt'', JString (lit ''eQp6Cg==''))])"
  by code_simp

lemma other_writable_B:
  "list_all (writable (install_other text_B) (dirname site_file))
     [(lit ''a.txt'', JString (lit ''eA=='')), (lit ''b.txt'', JString (lit ''eQp6Cg==''))]"
  by code_simp

lemma other_untouched:
  "list_all (\<lambda>e. open_w (install_other text_B) (join (dirname site_file) (fst e)) \<noteq>
       Inr [lit ''site'', lit ''other.py''])
     [(lit ''a.txt'', JString (lit ''eA=='')), (lit ''b.txt'', JString (lit ''eQp6Cg==''))]"
  "open_w (install_other text_B) (join (dirname site_file) manifest_name) \<noteq>
     Inr [lit ''site'', lit ''other.py'']"
  "open_w (install_other text_B) (join (dirname site_file) script_name) \<noteq>
     Inr [lit ''site'', lit ''other.py'']"
  by code_simp+

text \<open>
  C5 as stated fails: the script run as \<^verbatim>\<open>/site/other.py\<close> beside a file
  \<^verbatim>\<open>_write_files.py\<close> starts and finishes, and its own file is still there afterwards.
\<close>

theorem cleanup_removes_manifest_and_script_counterexample:
  "invoke (loads_as text_B manifest_B) other_file (install_other text_B) =
     Ran (run (loads_as text_B manifest_B) other_file (install_other text_B)) \<and>
   finished (run (loads_as text_B manifest_B) other_file (install_other text_B)) \<and>
   lookup_file
     (fs (state_of (run (loads_as text_B manifest_B) other_file (install_other text_B))))
     other_file = Inr ([lit ''site'', lit ''other.py''], lit ''import os, base64, json'')"
proof -
  let ?L = "loads_as text_B manifest_B" and ?F = "install_other text_B"
  have l: "load_manifest ?L (dirname other_file) ?F =
     Inr (JObject [(lit ''a.txt'', JString (lit ''eA=='')), (lit ''b.txt'', JString (lit ''eQp6Cg==''))])"
    unfolding other_dirname by (rule other_load_B)
  have "\<exists>s. run ?L other_file ?F = Finished s"
    by (rule run_success[OF l, unfolded other_dirname,
          OF other_writable_B other_manifest_file other_script_file install_nodes_differ])
  then obtain s where s: "run ?L other_file ?F = Finished s" by blast
  have "fs s [lit ''site'', lit ''other.py''] = ?F [lit ''site'', lit ''other.py'']"
    by (rule finished_frame[OF s l, unfolded other_dirname, OF other_untouched])
  also have "\<dots> = Some (File (lit ''import os, base64, json''))"
    using lookup_file_node[OF other_own_file] .
  finally have n: "fs s [lit ''site'', lit ''other.py''] =
      Some (File (lit ''import os, base64, json''))" .
  have "open_w (fs s) other_file = Inr [lit ''site'', lit ''other.py'']"
    by (rule open_w_same_dirs[OF finished_same_dirs[OF s] lookup_file_open_w[OF other_own_file]])
  from open_w_present[OF this n] invoke_present[OF other_own_file, of ?L text_B]
  show ?thesis unfolding s state_of.simps finished.simps by simp
qed

text \<open>
  C7, as amended. When the manifest is absent the script stops at once with
  \<^verbatim>\<open>FileNotFoundError\<close>: the file system is as before and nothing was written, removed or
  printed. A second invocation after a successful run changes nothing either, but it
  stops in this way only when the script's file is still there; installed as
  \<^verbatim>\<open>_write_files.py\<close> the script was removed by the first run, the interpreter cannot
  open it, and the manifest is never looked for.
\<close>

theorem manifest_not_found:
  "(lookup_file f (join (dirname file) manifest_name) = Inl FileNotFoundError \<longrightarrow>
      run loads file f = Raised FileNotFoundError \<lparr>fs = f, trace = []\<rparr> \<and>
      (\<forall>t source. lookup_file f file = Inr (t, source) \<longrightarrow>
         invoke loads file f = Ran (Raised FileNotFoundError \<lparr>fs = f, trace = []\<rparr>))) \<and>
   (run loads file f = Finished s \<longrightarrow>
      (invoke loads' file (fs s) = CannotOpenScript \<or>
       invoke loads' file (fs s) = Ran (Raised FileNotFoundError \<lparr>fs = fs s, trace = []\<rparr>)) \<and>
      (file = join (dirname file) script_name \<longrightarrow>
         invoke loads' file (fs s) = CannotOpenScript))"
proof (intro conjI impI allI)
  assume a: "lookup_file f (join (dirname file) manifest_name) = Inl FileNotFoundError"
  show b: "run loads file f = Raised FileNotFoundError \<lparr>fs = f, trace = []\<rparr>"
    by (rule body_without_manifest[OF a])
  fix t source
  assume "lookup_file f file = Inr (t, source)"
  from invoke_present[OF this] b
  show "invoke loads file f = Ran (Raised FileNotFoundError \<lparr>fs = f, trace = []\<rparr>)" by simp
next
  assume fin: "run loads file f = Finished s"
  show "invoke loads' file (fs s) = CannotOpenScript \<or>
       invoke loads' file (fs s) = Ran (Raised FileNotFoundError \<lparr>fs = fs s, trace = []\<rparr>)"
    by (rule second_invocation(1)[OF fin])
  assume "file = join (dirname file) script_name"
  then show "invoke loads' file (fs s) = CannotOpenScript"
    by (rule second_invocation(2)[OF fin])
qed

lemma no_manifest_lookup:
  "lookup_file ((install raw)([lit ''site'', manifest_name] := None))
      (join (dirname site_file) manifest_name) = Inl FileNotFoundError"
  by code_simp

lemma no_manifest_script:
  "lookup_file ((install raw)([lit ''site'', manifest_name] := None)) site_file =
     Inr ([lit ''site'', script_name], lit ''import os, base64, json'')"
  by code_simp

theorem manifest_not_found_witness:
  "lookup_file ((install text_B)([lit ''site'', manifest_name] := None))
      (join (dirname site_file) manifest_name) = Inl FileNotFoundError \<and>
   run (loads_as text_B manifest_B) site_file ((install text_B)([lit ''site'', manifest_name] := None)) =
     Raised FileNotFoundError
       \<lparr>fs = (install text_B)([lit ''site'', manifest_name] := None), trace = []\<rparr> \<and>
   lookup_file ((install text_B)([lit ''site'', manifest_name] := None)) site_file =
     Inr ([lit ''site'', script_name], lit ''import os, base64, json'') \<and>
   invoke (loads_as text_B manifest_B) site_file
       ((install text_B)([lit ''site'', manifest_name] := None)) =
     Ran (Raised FileNotFoundError
       \<lparr>fs = (install text_B)([lit ''site'', manifest_name] := None), trace = []\<rparr>) \<and>
   finished (run (loads_as text_B manifest_B) site_file (install text_B)) \<and>
   site_file = join (dirname site_file) script_name \<and>
   invoke (loads_as text_B manifest_B) site_file
      (fs (state_of (run (loads_as text_B manifest_B) site_file (install text_B)))) =
     CannotOpenScript"
proof -
  let ?L = "loads_as text_B manifest_B"
  let ?F0 = "(install text_B)([lit ''site'', manifest_name] := None)"
  obtain s where s: "run ?L site_file (install text_B) = Finished s"
    using run_B_finishes by blast
  note m1 = manifest_not_found[of ?F0 site_file ?L, THEN conjunct1, THEN mp, OF no_manifest_lookup]
  note m2 = manifest_not_found[of "install text_B" site_file ?L s ?L, THEN conjunct2, THEN mp, OF s]
  from m1 have a: "run ?L site_file ?F0 = Raised FileNotFoundError \<lparr>fs = ?F0, trace = []\<rparr>"
    by (rule conjunct1)
  from m1 no_manifest_script[of text_B]
  have b: "invoke ?L site_file ?F0 = Ran (Raised FileNotFoundError \<lparr>fs = ?F0, trace = []\<rparr>)"
    by blast
  from m2 site_file_name have c: "invoke ?L site_file (fs s) = CannotOpenScript" by blast
  from a b c no_manifest_lookup no_manifest_script site_file_name show ?thesis
    unfolding s state_of.simps finished.simps by blast
qed

text \<open>
  C7 as stated fails: after the finished run of the line-count example the second
  invocation does not reach the manifest; the interpreter cannot open the script.
\<close>

theorem manifest_not_found_counterexample:
  "finished (run (loads_as text_L manifest_L) site_file (install text_L)) \<and>
   invoke (loads_as text_L manifest_L) site_file
      (fs (state_of (run (loads_as text_L manifest_L) site_file (install text_L)))) =
     CannotOpenScript \<and>
   invoke (loads_as text_L manifest_L) site_file
      (fs (state_of (run (loads_as text_L manifest_L) site_file (install text_L)))) \<noteq>
     Ran (Raised FileNotFoundError
       \<lparr>fs = fs (state_of (run (loads_as text_L manifest_L) site_file (install text_L))),
          trace = []\<rparr>)"
proof -
  obtain s where s: "run (loads_as text_L manifest_L) site_file (install text_L) = Finished s"
    using run_L_finishes by blast
  from second_invocation(2)[OF s site_file_name, of "loads_as text_L manifest_L"]
  show ?thesis unfolding s state_of.simps finished.simps by simp
qed

lemma load_V:
  "load_manifest (loads_as text_V manifest_V) (dirname site_file) (install text_V) =
     Inr (JObject [(lit ''a.txt'', JString (lit ''****''))])"
  by code_simp

lemma writable_V:
  "list_all (writable (install text_V) (dirname site_file)) [(lit ''a.txt'', JString (lit ''****''))]"
  by code_simp

lemma run_V_finishes:
  "\<exists>s. run (loads_as text_V manifest_V) site_file (install text_V) = Finished s"
  by (rule install_run_finishes[OF load_V writable_V])

lemma stars:
  "lit ''****'' = [42, 42, 42, 42]" "table_a2b 42 = None" "42 \<noteq> BASE64_PAD"
  "decode_content (JString (lit ''****'')) = Inr []"
  by code_simp+

lemma entry_lines_V:
  "map entry_line [(lit ''a.txt'', JString (lit ''****''))] = [lit ''Written: a.txt (0 lines)'']"
  by code_simp

lemma finished_printed:
  assumes "run loads file f = Finished s"
    and "load_manifest loads (dirname file) f = Inr (JObject M)"
  shows "printed (trace s) = map entry_line M @ [lit ''Cleanup done'']"
proof -
  from finished_loop_facts[OF assms] obtain s1 t_m t_s where
    "write_files (dirname file) M \<lparr>fs = f, trace = []\<rparr> = Finished s1" and
    w: "list_all (writable f (dirname file)) M" and
    tr1: "trace s1 = concat (map (entry_effects f (dirname file)) M)" and
    "open_w f (join (dirname file) manifest_name) = Inr t_m" and
    "open_w f (join (dirname file) script_name) = Inr t_s" and
    "fs s = (fs s1)(t_m := None, t_s := None)" and
    tr: "trace s = trace s1 @ [Removed t_m, Removed t_s, Printed (lit ''Cleanup done'')]" and
    "same_dirs f (fs s)" and "t_m \<noteq> t_s"
    by (elim exE conjE)
  show ?thesis by (simp add: tr tr1 printed_append printed_loop[OF w])
qed

text \<open>
  C4 as stated fails: the value \<^verbatim>\<open>****\<close> is not valid base64, since no character of
  it is in the alphabet, but \<^verbatim>\<open>b64decode\<close> discards such characters and returns no
  bytes. The run does not abort: it finishes, prints \<^verbatim>\<open>Cleanup done\<close> and removes the
  manifest.
\<close>

theorem decode_failure_aborts_counterexample:
  "load_manifest (loads_as text_V manifest_V) (dirname site_file) (install text_V) =
     Inr (JObject [(lit ''a.txt'', JString (lit ''****''))]) \<and>
   lit ''****'' = [42, 42, 42, 42] \<and> table_a2b 42 = None \<and> 42 \<noteq> BASE64_PAD \<and>
   decode_content (JString (lit ''****'')) = Inr [] \<and>
   finished (run (loads_as text_V manifest_V) site_file (install text_V)) \<and>
   printed (trace (state_of (run (loads_as text_V manifest_V) site_file (install text_V)))) =
     [lit ''Written: a.txt (0 lines)'', lit ''Cleanup done''] \<and>
   lookup_file (fs (state_of (run (loads_as text_V manifest_V) site_file (install text_V))))
     (join (dirname site_file) manifest_name) = Inl FileNotFoundError"
proof -
  obtain s where s: "run (loads_as text_V manifest_V) site_file (install text_V) = Finished s"
    using run_V_finishes by blast
  have "printed (trace s) = [lit ''Written: a.txt (0 lines)'', lit ''Cleanup done'']"
    using finished_printed[OF s load_V] unfolding entry_lines_V by simp
  with finished_cleanup_gone(1)[OF s] load_V stars show ?thesis
    unfolding s state_of.simps finished.simps by blast
qed

end
